theory Spec2Isabelle
  imports Main "HOL-Library.Sublist" "HOL-Library.AList"
begin

section \<open>JavaScript values used by the CLI\<close>

text \<open>
  Strings are lists of characters; \<open>length\<close> is the \<open>.length\<close> of the source string. The
  characters are those of the type \<open>char\<close>, the code units up to 255, which include every
  character that the patterns of the validator accept. A property that may be missing is an
  \<open>option\<close>: \<open>None\<close> is \<open>undefined\<close>.
\<close>

text \<open>Truthiness of a string-or-undefined value: \<open>undefined\<close> and \<open>''\<close> are falsy.\<close>

definition truthy :: "string option \<Rightarrow> bool" where
  "truthy v = (case v of None \<Rightarrow> False | Some s \<Rightarrow> s \<noteq> [])"

text \<open>The operator \<open>a || b\<close>: the left operand when it is truthy, the right one otherwise.\<close>

definition js_or :: "string option \<Rightarrow> string option \<Rightarrow> string option" where
  "js_or a b = (if truthy a then a else b)"

text \<open>
  Untyped values: what \<open>JSON.parse\<close> and \<open>response.json()\<close> return and what an object
  literal holds. An object is the list of its own properties; a property whose value is
  \<open>undefined\<close> is present with \<open>JUndefined\<close>. A property is read by its key, the first
  entry of a key counts. Numbers are the integral ones.
\<close>

datatype jsvalue =
    JUndefined | JNull | JBool bool | JNumber int | JString string
  | JArray "jsvalue list" | JObject "(string \<times> jsvalue) list"

type_synonym jsobject = "(string \<times> jsvalue) list"

text \<open>Reading a property, \<open>obj.k\<close>: \<open>undefined\<close> when the object has no such property.\<close>

definition get_prop :: "jsobject \<Rightarrow> string \<Rightarrow> jsvalue" where
  "get_prop obj k = (case map_of obj k of None \<Rightarrow> JUndefined | Some v \<Rightarrow> v)"

text \<open>
  The order in which JavaScript lists the own properties of an object: the keys that are
  array indices (decimal digits without a leading zero, below \<open>2^32 - 1\<close>) first, in
  ascending numeric order, then the other keys in insertion order.
\<close>

definition is_digit :: "char \<Rightarrow> bool" where
  "is_digit c = (48 \<le> (of_char c :: int) \<and> (of_char c :: int) \<le> 57)"

definition digits_value :: "string \<Rightarrow> int" where
  "digits_value s = foldl (\<lambda>n c. 10 * n + (of_char c - 48)) 0 s"

definition array_index :: "string \<Rightarrow> bool" where
  "array_index k =
     (k \<noteq> [] \<and> list_all is_digit k \<and> (hd k \<noteq> CHR ''0'' \<or> k = ''0'') \<and>
      digits_value k < 4294967295)"

definition own_keys_order :: "jsobject \<Rightarrow> jsobject" where
  "own_keys_order obj =
     sort_key (\<lambda>(k, v). digits_value k) (filter (\<lambda>(k, v). array_index k) obj) @
     filter (\<lambda>(k, v). \<not> array_index k) obj"

text \<open>
  Object spread \<open>{...base, ...ext}\<close>: the properties of \<open>base\<close> take the value \<open>ext\<close> has for
  them, the other properties of \<open>ext\<close> are added after them, and the new object lists its
  properties in the order of own keys.
\<close>

definition spread :: "jsobject \<Rightarrow> jsobject \<Rightarrow> jsobject" where
  "spread base ext =
     own_keys_order
       (map (\<lambda>(k, v). (k, case map_of ext k of None \<Rightarrow> v | Some v' \<Rightarrow> v')) base @
        filter (\<lambda>(k, v). k \<notin> set (map fst base)) ext)"

text \<open>\<open>String.prototype.includes\<close> and \<open>String.prototype.endsWith\<close>.\<close>

definition includes_str :: "string \<Rightarrow> string \<Rightarrow> bool" where
  "includes_str s sub = sublist sub s"

definition endsWith :: "string \<Rightarrow> string \<Rightarrow> bool" where
  "endsWith s suf = suffix suf s"

section \<open>lib/auth.ts: the credential resolver\<close>

text \<open>
  The two kinds of exception the library code throws: \<open>AuthError\<close> (class of auth.ts)
  and a plain \<open>Error\<close>, each with its message.
\<close>

datatype error = AuthError string | Error string

fun message :: "error \<Rightarrow> string" where
  "message (AuthError m) = m"
| "message (Error m) = m"

text \<open>\<open>process.env\<close>: a variable is unset (\<open>None\<close>) or holds a string.\<close>

type_synonym env = "string \<Rightarrow> string option"

definition authErrorMessage :: string where
  "authErrorMessage =
     ''GitHub token required. Set GITHUB_TOKEN or GH_TOKEN environment variable.'' @ [CHR 0x0A] @
     ''Create a token at: https://github.com/settings/tokens''"

definition getToken :: "env \<Rightarrow> error + string" where
  "getToken env =
     (let token = js_or (env ''GITHUB_TOKEN'') (env ''GH_TOKEN'')
      in if \<not> truthy token then Inl (AuthError authErrorMessage)
         else Inr (the token))"

definition hasToken :: "env \<Rightarrow> bool" where
  "hasToken env = truthy (js_or (env ''GITHUB_TOKEN'') (env ''GH_TOKEN''))"

text \<open>A header record (\<open>Record<string, string>\<close>) is a list of name/value pairs.\<close>

type_synonym headers = "(string \<times> string) list"

definition getAuthHeaders :: "env \<Rightarrow> error + headers" where
  "getAuthHeaders env =
     (case getToken env of
        Inl e \<Rightarrow> Inl e
      | Inr token \<Rightarrow> Inr [(''Authorization'', ''Bearer '' @ token)])"

subsection \<open>The network as seen through \<open>fetch\<close>\<close>

record request =
  url :: string
  http_method :: string
  headers :: headers
  body :: "jsvalue option"

text \<open>
  A \<open>Response\<close>: its status, its content type header, its body as text, and what
  \<open>response.json()\<close> settles to (it rejects when the body is not JSON).
\<close>

record response =
  status :: nat
  contentType :: "string option"
  text_body :: string
  json :: "error + jsvalue"

definition ok :: "response \<Rightarrow> bool" where
  "ok r = (200 \<le> status r \<and> status r \<le> 299)"

text \<open>The promise \<open>fetch\<close> returns resolves with a response or rejects (DNS, connection, timeout).\<close>

datatype fetch_result = Resolved response | Rejected error

text \<open>
  The network decides the outcome of every call from the number of calls made before it
  and the request. What a run does to the outside world is its trace: the \<open>fetch\<close> calls
  and the \<open>setTimeout\<close> waits (in milliseconds), in order.
\<close>

type_synonym network = "nat \<Rightarrow> request \<Rightarrow> fetch_result"

datatype event = Fetch request | Sleep nat

fun is_fetch :: "event \<Rightarrow> bool" where
  "is_fetch (Fetch _) = True"
| "is_fetch (Sleep _) = False"

definition calls :: "event list \<Rightarrow> nat" where
  "calls tr = length (filter is_fetch tr)"

subsection \<open>\<open>getGitHubUser\<close>\<close>

definition maxRetries :: nat where
  "maxRetries = 3"

definition baseDelay :: nat where
  "baseDelay = 1000"

definition userRequest :: "headers \<Rightarrow> request" where
  "userRequest auth =
     \<lparr>url = ''https://api.github.com/user'', http_method = ''GET'',
      headers = auth @ [(''Accept'', ''application/vnd.github+json''),
                        (''X-GitHub-Api-Version'', ''2022-11-28'')],
      body = None\<rparr>"

text \<open>
  The wait both retry branches share:
  \<open>if (attempt < maxRetries - 1) { delay = baseDelay * Math.pow(2, attempt); await ... }\<close>.
\<close>

definition backoff :: "nat \<Rightarrow> event list \<Rightarrow> event list" where
  "backoff attempt tr =
     (if attempt < maxRetries - 1 then tr @ [Sleep (baseDelay * 2 ^ attempt)] else tr)"

text \<open>
  The \<open>for\<close> loop, from \<open>attempt\<close> on. The result is \<open>Inl\<close> when the returned promise
  rejects and \<open>Inr\<close> of the value it resolves to (\<open>JNull\<close> for \<open>null\<close>). Inside \<open>try\<close>,
  an exception of \<open>getAuthHeaders\<close> or a rejected \<open>fetch\<close> goes to the \<open>catch\<close> block.
  \<open>return response.json()\<close> hands the promise of \<open>json()\<close> out without awaiting it, so
  the function settles as that promise does.
\<close>

function getGitHubUser_loop ::
  "env \<Rightarrow> network \<Rightarrow> nat \<Rightarrow> event list \<Rightarrow> (error + jsvalue) \<times> event list" where
  "getGitHubUser_loop env net attempt tr =
     (if attempt < maxRetries then
        (case getAuthHeaders env of
           Inl e \<Rightarrow> getGitHubUser_loop env net (attempt + 1) (backoff attempt tr)
         | Inr auth \<Rightarrow>
             (case net (calls tr) (userRequest auth) of
                Rejected e \<Rightarrow>
                  getGitHubUser_loop env net (attempt + 1)
                    (backoff attempt (tr @ [Fetch (userRequest auth)]))
              | Resolved response \<Rightarrow>
                  if ok response then (json response, tr @ [Fetch (userRequest auth)])
                  else if 400 \<le> status response \<and> status response < 500
                    then (Inr JNull, tr @ [Fetch (userRequest auth)])
                  else getGitHubUser_loop env net (attempt + 1)
                         (backoff attempt (tr @ [Fetch (userRequest auth)]))))
      else (Inr JNull, tr))"
  by pat_completeness auto
termination
  by (relation "measure (\<lambda>(env, net, attempt, tr). maxRetries - attempt)") auto

declare getGitHubUser_loop.simps [simp del]

definition getGitHubUser :: "env \<Rightarrow> network \<Rightarrow> (error + jsvalue) \<times> event list" where
  "getGitHubUser env net =
     (if \<not> hasToken env then (Inr JNull, []) else getGitHubUser_loop env net 0 [])"

section \<open>Regular expressions\<close>

text \<open>
  The validator tests its fields against regular-expression literals. They are kept as
  syntax trees and run by a matcher. A character class is a list of inclusive ranges.
  Every pattern of the source is anchored with \<open>^\<close> and \<open>$\<close>, so \<open>test\<close> is a match
  of the whole string.
\<close>

type_synonym charclass = "(char \<times> char) list"

definition in_class :: "charclass \<Rightarrow> char \<Rightarrow> bool" where
  "in_class cls c =
     list_ex (\<lambda>(lo, hi). (of_char lo :: nat) \<le> of_char c \<and> (of_char c :: nat) \<le> of_char hi) cls"

datatype rexp =
    Fail
  | Eps
  | Class charclass
  | Seq rexp rexp
  | Alt rexp rexp
  | Star rexp
  | Rep nat nat rexp

text \<open>\<open>Rep m n r\<close> is \<open>r{m,n}\<close>; \<open>r?\<close>, \<open>r+\<close> and a literal character are derived forms.\<close>

definition Opt :: "rexp \<Rightarrow> rexp" where
  "Opt r = Alt r Eps"

definition Plus :: "rexp \<Rightarrow> rexp" where
  "Plus r = Seq r (Star r)"

definition Lit :: "char \<Rightarrow> rexp" where
  "Lit c = Class [(c, c)]"

fun nullable :: "rexp \<Rightarrow> bool" where
  "nullable Fail = False"
| "nullable Eps = True"
| "nullable (Class cls) = False"
| "nullable (Seq r s) = (nullable r \<and> nullable s)"
| "nullable (Alt r s) = (nullable r \<or> nullable s)"
| "nullable (Star r) = True"
| "nullable (Rep m n r) = (m \<le> n \<and> (m = 0 \<or> nullable r))"

text \<open>Sequence and alternative that drop the parts that can no longer match.\<close>

fun seq :: "rexp \<Rightarrow> rexp \<Rightarrow> rexp" where
  "seq Fail s = Fail"
| "seq Eps s = s"
| "seq r s = Seq r s"

fun alt :: "rexp \<Rightarrow> rexp \<Rightarrow> rexp" where
  "alt Fail s = s"
| "alt r Fail = r"
| "alt r s = Alt r s"

text \<open>\<open>deriv c r\<close> matches what \<open>r\<close> matches after a leading \<open>c\<close>.\<close>

fun deriv :: "char \<Rightarrow> rexp \<Rightarrow> rexp" where
  "deriv c Fail = Fail"
| "deriv c Eps = Fail"
| "deriv c (Class cls) = (if in_class cls c then Eps else Fail)"
| "deriv c (Seq r s) =
     alt (seq (deriv c r) s) (if nullable r then deriv c s else Fail)"
| "deriv c (Alt r s) = alt (deriv c r) (deriv c s)"
| "deriv c (Star r) = seq (deriv c r) (Star r)"
| "deriv c (Rep m n r) =
     (if n = 0 \<or> n < m then Fail else seq (deriv c r) (Rep (m - 1) (n - 1) r))"

definition test :: "rexp \<Rightarrow> string \<Rightarrow> bool" where
  "test r s = nullable (fold deriv s r)"

text \<open>
  What an expression means is the set of strings it matches: concatenation, powers,
  and the language of each construct. \<open>Deriv c A\<close> is what is left of the strings of \<open>A\<close>
  that start with \<open>c\<close>. The matcher is proved to decide this language below.
\<close>

definition conc :: "string set \<Rightarrow> string set \<Rightarrow> string set" where
  "conc A B = {xs @ ys | xs ys. xs \<in> A \<and> ys \<in> B}"

fun pow :: "string set \<Rightarrow> nat \<Rightarrow> string set" where
  "pow A 0 = {[]}"
| "pow A (Suc n) = conc A (pow A n)"

fun lang :: "rexp \<Rightarrow> string set" where
  "lang Fail = {}"
| "lang Eps = {[]}"
| "lang (Class cls) = {[c] | c. in_class cls c}"
| "lang (Seq r s) = conc (lang r) (lang s)"
| "lang (Alt r s) = lang r \<union> lang s"
| "lang (Star r) = (\<Union>k. pow (lang r) k)"
| "lang (Rep m n r) = (\<Union>k\<in>{m..n}. pow (lang r) k)"

definition Deriv :: "char \<Rightarrow> string set \<Rightarrow> string set" where
  "Deriv c A = {w. c # w \<in> A}"

section \<open>lib/config.ts: the schema validator\<close>

record ModuleConfig =
  kind :: "string option"
  type :: "string option"
  moduleId :: "string option"
  layers :: "string list option"
  fieldValues :: "jsobject option"

text \<open>
  \<open>modules\<close> and \<open>environments\<close> are \<open>None\<close> when the property is missing or is not an
  array.
\<close>

record GrablinConfig =
  projectName :: "string option"
  description :: "string option"
  domain :: "string option"
  owner :: "string option"
  modules :: "ModuleConfig list option"
  environments :: "string list option"
  provider :: "string option"
  vcs :: "string option"
  version :: "string option"

record ValidationResult =
  valid :: bool
  errors :: "string list"
  warnings :: "string list"

subsection \<open>The patterns\<close>

definition lower :: charclass where
  "lower = [(CHR ''a'', CHR ''z'')]"

definition upper :: charclass where
  "upper = [(CHR ''A'', CHR ''Z'')]"

definition digit :: charclass where
  "digit = [(CHR ''0'', CHR ''9'')]"

definition chars :: "string \<Rightarrow> charclass" where
  "chars s = map (\<lambda>c. (c, c)) s"

text \<open>\<open>/^[a-zA-Z][a-zA-Z0-9-_]{0,99}$/\<close>\<close>

definition projectNamePattern :: rexp where
  "projectNamePattern =
     Seq (Class (lower @ upper)) (Rep 0 99 (Class (lower @ upper @ digit @ chars ''-_'')))"

text \<open>
  \<open>/^(?:[a-z0-9](?:[a-z0-9-]{0,61}[a-z0-9])?\.)+[a-z]{2,24}$/i\<close>. Under the flag \<open>i\<close>
  a class \<open>[a-z]\<close> takes the letters of both cases.
\<close>

definition domainLabel :: rexp where
  "domainLabel =
     Seq (Class (lower @ upper @ digit))
         (Opt (Seq (Rep 0 61 (Class (lower @ upper @ digit @ chars ''-'')))
                   (Class (lower @ upper @ digit))))"

definition domainPattern :: rexp where
  "domainPattern =
     Seq (Plus (Seq domainLabel (Lit CHR ''.''))) (Rep 2 24 (Class (lower @ upper)))"

text \<open>
  \<open>/^[a-zA-Z0-9.!#$%&'*+/=?^_`{|}~-]+@[a-zA-Z0-9](?:[a-zA-Z0-9-]{0,61}[a-zA-Z0-9])?\<close>
  \<open>(?:\.[a-zA-Z0-9](?:[a-zA-Z0-9-]{0,61}[a-zA-Z0-9])?)*$/\<close>; the apostrophe is
  character \<open>0x27\<close> and the backquote \<open>0x60\<close>.
\<close>

definition emailLocal :: charclass where
  "emailLocal =
     lower @ upper @ digit @ chars ''.!#$%&'' @ [(CHR 0x27, CHR 0x27)] @ chars ''*+/=?^_'' @
     [(CHR 0x60, CHR 0x60)] @ chars ''{|}~-''"

definition emailLabel :: rexp where
  "emailLabel =
     Seq (Class (lower @ upper @ digit))
         (Opt (Seq (Rep 0 61 (Class (lower @ upper @ digit @ chars ''-'')))
                   (Class (lower @ upper @ digit))))"

definition ownerPattern :: rexp where
  "ownerPattern =
     Seq (Plus (Class emailLocal))
         (Seq (Lit CHR ''@'')
              (Seq emailLabel (Star (Seq (Lit CHR ''.'') emailLabel))))"

text \<open>\<open>/^[a-z][a-z0-9-]{0,99}$/\<close>\<close>

definition moduleIdPattern :: rexp where
  "moduleIdPattern = Seq (Class lower) (Rep 0 99 (Class (lower @ digit @ chars ''-'')))"

subsection \<open>\<open>validateModule\<close>\<close>

text \<open>The decimal digits of an array index, as a template literal prints it.\<close>

function show_nat :: "nat \<Rightarrow> string" where
  "show_nat n =
     (if n < 10 then [char_of (48 + n)] else show_nat (n div 10) @ [char_of (48 + n mod 10)])"
  by pat_completeness auto
termination
  by (relation "measure id") auto

definition kinds :: "string list" where
  "kinds = [''code'', ''extension'', ''provider'', ''vcs'']"

definition kindErrors :: "string \<Rightarrow> ModuleConfig \<Rightarrow> string list" where
  "kindErrors pfx module =
     (if \<not> truthy (kind module)
        then [pfx @ ''.kind is required (code, extension, provider, vcs)'']
      else if the (kind module) \<notin> set kinds
        then [pfx @ ''.kind must be one of: code, extension, provider, vcs'']
      else [])"

definition typeErrors :: "string \<Rightarrow> ModuleConfig \<Rightarrow> string list" where
  "typeErrors pfx module =
     (if \<not> truthy (type module) then [pfx @ ''.type is required''] else [])"

definition moduleIdErrors :: "string \<Rightarrow> ModuleConfig \<Rightarrow> string list" where
  "moduleIdErrors pfx module =
     (if \<not> truthy (moduleId module)
        then [pfx @ ''.moduleId is required'']
      else if \<not> test moduleIdPattern (the (moduleId module))
        then [pfx @ ''.moduleId must be lowercase, start with a letter, use hyphens only, and be 1-100 chars'']
      else if endsWith (the (moduleId module)) ''-'' \<or> includes_str (the (moduleId module)) ''--''
        then [pfx @ ''.moduleId cannot end with hyphen or contain consecutive hyphens'']
      else [])"

text \<open>The three \<open>if\<close> statements push onto \<open>errors\<close> one after the other.\<close>

definition validateModule :: "ModuleConfig \<Rightarrow> nat \<Rightarrow> string list" where
  "validateModule module index =
     (let pfx = ''modules['' @ show_nat index @ '']''
      in kindErrors pfx module @ typeErrors pfx module @ moduleIdErrors pfx module)"

subsection \<open>\<open>validateConfig\<close>\<close>

definition projectNameErrors :: "GrablinConfig \<Rightarrow> string list" where
  "projectNameErrors config =
     (if \<not> truthy (projectName config)
        then [''projectName is required'']
      else if \<not> test projectNamePattern (the (projectName config))
        then [''projectName must start with a letter, contain only letters, numbers, hyphens, and underscores, and be 1-100 chars'']
      else [])"

text \<open>\<open>split('.')\<close>: the pieces between the dots, at least one.\<close>

fun split_dot :: "string \<Rightarrow> string list" where
  "split_dot [] = [[]]"
| "split_dot (c # cs) =
     (if c = CHR ''.'' then [] # split_dot cs
      else (case split_dot cs of l # ls \<Rightarrow> (c # l) # ls | [] \<Rightarrow> [[c]]))"

text \<open>The test of \<open>some\<close>: \<open>label => label.length > 63\<close>.\<close>

definition longLabel :: "string \<Rightarrow> bool" where
  "longLabel label = (length label > 63)"

definition domainErrors :: "GrablinConfig \<Rightarrow> string list" where
  "domainErrors config =
     (if \<not> truthy (domain config)
        then [''domain is required'']
      else if \<not> test domainPattern (the (domain config))
        then [''domain must be a valid domain name (e.g., myapp.com, api.myapp.io)'']
      else if length (the (domain config)) > 253
        then [''domain name too long (max 253 characters)'']
      else if list_ex longLabel (split_dot (the (domain config)))
        then [''domain label too long (max 63 characters per label)'']
      else [])"

definition ownerErrors :: "GrablinConfig \<Rightarrow> string list" where
  "ownerErrors config =
     (if \<not> truthy (owner config)
        then [''owner email is required'']
      else if \<not> test ownerPattern (the (owner config))
        then [''owner must be a valid email address'']
      else if length (the (owner config)) > 254
        then [''email address too long (max 254 characters)'']
      else [])"

text \<open>
  The \<open>modules\<close> statement pushes errors and warnings; both lists are given here, the errors
  first. \<open>forEach\<close> hands every module its index.
\<close>

definition modulesErrors :: "GrablinConfig \<Rightarrow> string list" where
  "modulesErrors config =
     (case modules config of
        None \<Rightarrow> [''modules array is required'']
      | Some ms \<Rightarrow>
          if length ms = 0 then []
          else concat (map (\<lambda>(index, module). validateModule module index) (enumerate 0 ms)))"

definition modulesWarnings :: "GrablinConfig \<Rightarrow> string list" where
  "modulesWarnings config =
     (case modules config of
        None \<Rightarrow> []
      | Some ms \<Rightarrow>
          if length ms = 0 then [''No modules specified - project will be empty'']
          else if length (filter (\<lambda>m. kind m = Some ''code'') ms) = 0
            then [''No code modules (frontend/backend) specified'']
          else [])"

definition environmentsWarnings :: "GrablinConfig \<Rightarrow> string list" where
  "environmentsWarnings config =
     (case environments config of
        None \<Rightarrow> [''No environments specified, using defaults (dev, staging, prod)'']
      | Some es \<Rightarrow> [])"

definition validateConfig :: "GrablinConfig \<Rightarrow> ValidationResult" where
  "validateConfig config =
     (let errors = projectNameErrors config @ domainErrors config @ ownerErrors config @
                   modulesErrors config;
          warnings = modulesWarnings config @ environmentsWarnings config
      in \<lparr>valid = (length errors = 0), errors = errors, warnings = warnings\<rparr>)"

section \<open>lib/config.ts: the config store\<close>

text \<open>
  \<open>loadConfig\<close> and \<open>saveConfig\<close> treat the configuration as an untyped object. What
  they use of the platform are parameters: \<open>path.resolve\<close>, \<open>JSON.stringify(v, null, 2)\<close>
  and \<open>JSON.parse\<close> (which throws on text that is not JSON).
\<close>

record platform =
  path_resolve :: "string \<Rightarrow> string"
  JSON_stringify :: "jsvalue \<Rightarrow> string"
  JSON_parse :: "string \<Rightarrow> error + jsvalue"

text \<open>
  The file system maps an absolute path to what is there. \<open>dirname\<close> is the parent of a
  normalised absolute path, as \<open>path.resolve\<close> returns them. Reading a directory fails;
  writing fails when the parent is missing or is not a directory and when the path is a
  directory. The messages are those of the platform, with the path in quotes.
\<close>

datatype node = File string | Directory

type_synonym filesystem = "string \<Rightarrow> node option"

definition dirname :: "string \<Rightarrow> string" where
  "dirname p =
     (let d = rev (drop 1 (dropWhile (\<lambda>c. c \<noteq> CHR ''/'') (rev p)))
      in if d = [] then ''/'' else d)"

definition quote_path :: "string \<Rightarrow> string" where
  "quote_path p = [CHR 0x27] @ p @ [CHR 0x27]"

definition pathExists :: "filesystem \<Rightarrow> string \<Rightarrow> bool" where
  "pathExists fs p = (fs p \<noteq> None)"

definition readFile :: "filesystem \<Rightarrow> string \<Rightarrow> error + string" where
  "readFile fs p =
     (case fs p of
        None \<Rightarrow> Inl (Error (''ENOENT: no such file or directory, open '' @ quote_path p))
      | Some Directory \<Rightarrow> Inl (Error ''EISDIR: illegal operation on a directory, read'')
      | Some (File content) \<Rightarrow> Inr content)"

definition writeFile :: "filesystem \<Rightarrow> string \<Rightarrow> string \<Rightarrow> error + filesystem" where
  "writeFile fs p content =
     (case fs (dirname p) of
        None \<Rightarrow> Inl (Error (''ENOENT: no such file or directory, open '' @ quote_path p))
      | Some (File parent) \<Rightarrow> Inl (Error (''ENOTDIR: not a directory, open '' @ quote_path p))
      | Some Directory \<Rightarrow>
          (case fs p of
             Some Directory \<Rightarrow>
               Inl (Error (''EISDIR: illegal operation on a directory, open '' @ quote_path p))
           | _ \<Rightarrow> Inr (fs(p \<mapsto> File content))))"

definition DEFAULT_CONFIG_FILE :: string where
  "DEFAULT_CONFIG_FILE = ''grablin.json''"

definition getConfigPath :: "string option \<Rightarrow> string" where
  "getConfigPath configOption = the (js_or configOption (Some DEFAULT_CONFIG_FILE))"

text \<open>The file both functions work on: \<open>path.resolve(configPath || DEFAULT_CONFIG_FILE)\<close>.\<close>

definition configFile :: "platform \<Rightarrow> string option \<Rightarrow> string" where
  "configFile pl configPath = path_resolve pl (the (js_or configPath (Some DEFAULT_CONFIG_FILE)))"

text \<open>The result is \<open>Inr JNull\<close> for \<open>null\<close>; both failures of the \<open>try\<close> block are rewrapped.\<close>

definition loadConfig :: "platform \<Rightarrow> filesystem \<Rightarrow> string option \<Rightarrow> error + jsvalue" where
  "loadConfig pl fs configPath =
     (let filePath = the (js_or configPath (Some DEFAULT_CONFIG_FILE));
          absolutePath = path_resolve pl filePath
      in if \<not> pathExists fs absolutePath then Inr JNull
         else (case readFile fs absolutePath of
                 Inl e \<Rightarrow> Inl (Error (''Failed to parse config file: '' @ message e))
               | Inr content \<Rightarrow>
                   (case JSON_parse pl content of
                      Inl e \<Rightarrow> Inl (Error (''Failed to parse config file: '' @ message e))
                    | Inr v \<Rightarrow> Inr v)))"

text \<open>The result is the new file system and the absolute path written.\<close>

definition saveConfig ::
  "platform \<Rightarrow> filesystem \<Rightarrow> jsobject \<Rightarrow> string option \<Rightarrow> error + filesystem \<times> string" where
  "saveConfig pl fs config configPath =
     (let filePath = the (js_or configPath (Some DEFAULT_CONFIG_FILE));
          absolutePath = path_resolve pl filePath;
          configWithVersion = spread [(''version'', JString ''1.0'')] config
      in case writeFile fs absolutePath
                (JSON_stringify pl (JObject configWithVersion) @ [CHR 0x0A]) of
           Inl e \<Rightarrow> Inl e
         | Inr fs' \<Rightarrow> Inr (fs', absolutePath))"

text \<open>
  What the platform's JSON functions promise: parsing the text of a value gives the value
  back without the properties that hold \<open>undefined\<close> (an \<open>undefined\<close> array element comes
  back as \<open>null\<close>), and white space after the text is skipped. \<open>json_round_trip pl v\<close> states
  it for the value \<open>v\<close> followed by a newline.
\<close>

fun jsonView :: "jsvalue \<Rightarrow> jsvalue" where
  "jsonView (JArray vs) = JArray (map (\<lambda>v. if v = JUndefined then JNull else jsonView v) vs)"
| "jsonView (JObject kvs) =
     JObject (filter (\<lambda>(k, v). v \<noteq> JUndefined)
                (AList.clearjunk (map (\<lambda>(k, v). (k, jsonView v)) kvs)))"
| "jsonView v = v"

definition json_round_trip :: "platform \<Rightarrow> jsvalue \<Rightarrow> bool" where
  "json_round_trip pl v = (JSON_parse pl (JSON_stringify pl v @ [CHR 0x0A]) = Inr (jsonView v))"

text \<open>A property read as a string: \<open>None\<close> unless the property holds one.\<close>

definition string_prop :: "jsobject \<Rightarrow> string \<Rightarrow> string option" where
  "string_prop obj k = (case get_prop obj k of JString s \<Rightarrow> Some s | _ \<Rightarrow> None)"

section \<open>lib/generator.ts: the generation orchestrator\<close>

text \<open>
  Modelled from the spec: the options and the outcome of \<open>generate\<close> (sections 3 and 4.4)
  and the default endpoint; the source file lib/generator.ts is missing.
\<close>

record options =
  config :: GrablinConfig
  apiUrl :: "string option"
  output_dir :: "string option"
  pushToGithub :: bool
  repoName :: "string option"
  private_repo :: bool
  verbose :: bool

datatype outcome =
    Success nat "string option" "string option" "string option"
  | Failure string

definition DEFAULT_API_URL :: string where
  "DEFAULT_API_URL = ''https://api.grablin.com''"

text \<open>
  Modelled from the spec: how the request body carries an optional string and a module
  (section 4.4, step 3: kind, type, moduleId, layers, fieldValues); the source file
  lib/generator.ts is missing.
\<close>

definition opt_string :: "string option \<Rightarrow> jsvalue" where
  "opt_string v = (case v of None \<Rightarrow> JUndefined | Some s \<Rightarrow> JString s)"

definition module_json :: "ModuleConfig \<Rightarrow> jsvalue" where
  "module_json m =
     JObject [(''kind'', opt_string (kind m)), (''type'', opt_string (type m)),
              (''moduleId'', opt_string (moduleId m)),
              (''layers'', (case layers m of None \<Rightarrow> JUndefined | Some ls \<Rightarrow> JArray (map JString ls))),
              (''fieldValues'', (case fieldValues m of None \<Rightarrow> JUndefined | Some fv \<Rightarrow> JObject fv))]"

text \<open>
  Modelled from the spec: the request body of \<open>generate\<close> (section 4.4, step 3), whose
  source file lib/generator.ts is missing: the sections \<open>project\<close>, \<open>modules\<close> and \<open>output\<close>,
  with \<open>repoName\<close> and \<open>private\<close> when pushing to a repository host.
\<close>

definition generateBody :: "options \<Rightarrow> jsvalue" where
  "generateBody opts =
     JObject
       ([(''project'',
           JObject [(''name'', opt_string (projectName (config opts))),
                    (''domain'', opt_string (domain (config opts))),
                    (''owner'', opt_string (owner (config opts))),
                    (''description'', opt_string (description (config opts)))]),
         (''modules'',
           JArray (map module_json (case modules (config opts) of None \<Rightarrow> [] | Some ms \<Rightarrow> ms))),
         (''output'', JString (if pushToGithub opts then ''github'' else ''local''))] @
        (if pushToGithub opts
           then [(''repoName'', opt_string (repoName opts)), (''private'', JBool (private_repo opts))]
         else []))"

text \<open>
  Modelled from the spec: the request of \<open>generate\<close> (section 4.4, step 4), whose source is
  missing: a POST to \<open><apiUrl>/api/generate\<close> with the authorization header and a JSON
  content type.
\<close>

definition generateRequest :: "headers \<Rightarrow> options \<Rightarrow> request" where
  "generateRequest auth opts =
     \<lparr>url = the (js_or (apiUrl opts) (Some DEFAULT_API_URL)) @ ''/api/generate'',
      http_method = ''POST'',
      headers = (''Content-Type'', ''application/json'') # auth,
      body = Some (generateBody opts)\<rparr>"

text \<open>
  Modelled from the spec: the response handling of \<open>generate\<close> (section 4.4, step 5), whose
  source is missing. \<open>archiveFiles\<close> counts the files of the archive the orchestrator
  persists; the spec leaves the archive opaque.
\<close>

definition generateOutcome :: "(string \<Rightarrow> nat) \<Rightarrow> options \<Rightarrow> response \<Rightarrow> outcome" where
  "generateOutcome archiveFiles opts response =
     (if \<not> ok response
        then Failure (''API error ('' @ show_nat (status response) @ ''): '' @ text_body response)
      else if \<not> (case contentType response of None \<Rightarrow> False
                  | Some ct \<Rightarrow> includes_str ct ''application/json'')
        then Success (archiveFiles (text_body response)) (output_dir opts) None None
      else (case json response of
              Inl e \<Rightarrow> Failure (message e)
            | Inr (JObject payload) \<Rightarrow>
                if get_prop payload ''success'' = JBool True
                  then (case get_prop payload ''data'' of
                          JObject d \<Rightarrow>
                            Success (case get_prop d ''fileCount'' of JNumber n \<Rightarrow> nat n | _ \<Rightarrow> 0)
                              None (string_prop d ''repoUrl'') (string_prop d ''cloneCommand'')
                        | _ \<Rightarrow> Success 0 None None None)
                else Failure (case string_prop payload ''error'' of None \<Rightarrow> [] | Some m \<Rightarrow> m)
            | Inr _ \<Rightarrow> Failure []))"

text \<open>
  Modelled from the spec: \<open>generate\<close> of lib/generator.ts (section 4.4), whose source is
  missing. Step 1 fails fast with the message of the credential resolver's \<open>AuthError\<close>,
  step 2 with the missing output option; steps 3 and 4 send the request; step 5 interprets
  the response and step 6 turns a transport failure into a failure outcome. The result is
  the outcome and the trace of network calls.
\<close>

definition generate ::
  "(string \<Rightarrow> nat) \<Rightarrow> env \<Rightarrow> network \<Rightarrow> options \<Rightarrow> outcome \<times> event list" where
  "generate archiveFiles env net opts =
     (case getAuthHeaders env of
        Inl e \<Rightarrow> (Failure (message e), [])
      | Inr auth \<Rightarrow>
          if \<not> truthy (output_dir opts) \<and> \<not> pushToGithub opts
            then (Failure ''No output option specified'', [])
          else (case net 0 (generateRequest auth opts) of
                  Rejected e \<Rightarrow> (Failure (message e), [Fetch (generateRequest auth opts)])
                | Resolved response \<Rightarrow>
                    (generateOutcome archiveFiles opts response,
                     [Fetch (generateRequest auth opts)])))"

section \<open>Vocabulary of the properties\<close>

text \<open>
  The classes of outcome of a \<open>fetch\<close> call: a response with a status from 400 to 499,
  and a failure worth another attempt (a status from 500 to 599 or a rejected call).
\<close>

definition client_error :: "fetch_result \<Rightarrow> bool" where
  "client_error fr =
     (case fr of Rejected e \<Rightarrow> False | Resolved r \<Rightarrow> 400 \<le> status r \<and> status r < 500)"

definition transient :: "fetch_result \<Rightarrow> bool" where
  "transient fr =
     (case fr of Rejected e \<Rightarrow> True | Resolved r \<Rightarrow> 500 \<le> status r \<and> status r < 600)"

text \<open>The waits of a trace, in order.\<close>

fun waits :: "event list \<Rightarrow> nat list" where
  "waits [] = []"
| "waits (Fetch r # tr) = waits tr"
| "waits (Sleep n # tr) = n # waits tr"

subsection \<open>Environments, networks and documents of the test suite\<close>

definition tokenEnv :: env where
  "tokenEnv = map_of [(''GITHUB_TOKEN'', ''ghp_test'')]"

definition emptyEnv :: env where
  "emptyEnv = map_of []"

text \<open>A network that answers every call with the same status and the same \<open>json()\<close>.\<close>

definition respond :: "nat \<Rightarrow> error + jsvalue \<Rightarrow> network" where
  "respond n j = (\<lambda>k req. Resolved \<lparr>status = n, contentType = None, text_body = [], json = j\<rparr>)"

text \<open>
  A network that answers the calls with the given statuses in turn (and 500 once the list
  is used up); \<open>json()\<close> of every response rejects.
\<close>

definition statuses :: "nat list \<Rightarrow> network" where
  "statuses ss =
     (\<lambda>k req. Resolved \<lparr>status = (if k < length ss then ss ! k else 500), contentType = None,
                          text_body = [], json = Inl (Error ''Unexpected end of JSON input'')\<rparr>)"

definition unreachable :: network where
  "unreachable = (\<lambda>k req. Rejected (Error ''Network error''))"

definition tokenRequest :: request where
  "tokenRequest = userRequest [(''Authorization'', ''Bearer ghp_test'')]"

definition frontendModule :: ModuleConfig where
  "frontendModule =
     \<lparr>kind = Some ''code'', type = Some ''react'', moduleId = Some ''frontend'',
      layers = Some [''frontend''], fieldValues = None\<rparr>"

definition validConfig :: GrablinConfig where
  "validConfig =
     \<lparr>projectName = Some ''test-app'', description = None, domain = Some ''test.com'',
      owner = Some ''test@example.com'', modules = Some [frontendModule],
      environments = Some [''dev'', ''prod''], provider = None, vcs = None, version = None\<rparr>"

definition localOptions :: options where
  "localOptions =
     \<lparr>config = validConfig, apiUrl = None, output_dir = Some ''/tmp/test'',
      pushToGithub = False, repoName = None, private_repo = False, verbose = False\<rparr>"

text \<open>The errors of a validation result that come from the \<open>domain\<close> statement.\<close>

definition domainMessages :: "string list" where
  "domainMessages =
     [''domain is required'',
      ''domain must be a valid domain name (e.g., myapp.com, api.myapp.io)'',
      ''domain name too long (max 253 characters)'',
      ''domain label too long (max 63 characters per label)'']"

definition domain_errors_of :: "ValidationResult \<Rightarrow> string list" where
  "domain_errors_of r = filter (\<lambda>e. e \<in> set domainMessages) (errors r)"

subsection \<open>Configurations\<close>

definition hyphenModule :: ModuleConfig where
  "hyphenModule =
     \<lparr>kind = Some ''code'', type = Some ''react'', moduleId = Some ''a--b'',
      layers = None, fieldValues = None\<rparr>"

definition emptyModulesConfig :: GrablinConfig where
  "emptyModulesConfig =
     \<lparr>projectName = Some ''ValidApp'', description = None, domain = Some ''test.com'',
      owner = Some ''test@example.com'', modules = Some [],
      environments = Some [''dev''], provider = None, vcs = None, version = None\<rparr>"

definition missingNameConfig :: GrablinConfig where
  "missingNameConfig = emptyModulesConfig\<lparr>projectName := Some []\<rparr>"

text \<open>A domain of 126 one-letter labels and \<open>com\<close>, and one with a label of 250 letters.\<close>

definition manyLabelsDomain :: string where
  "manyLabelsDomain = concat (replicate 126 ''a.'') @ ''com''"

definition longLabelDomain :: string where
  "longLabelDomain = replicate 250 CHR ''a'' @ ''.com''"

definition manyLabelsConfig :: GrablinConfig where
  "manyLabelsConfig = emptyModulesConfig\<lparr>domain := Some manyLabelsDomain\<rparr>"

definition longLabelConfig :: GrablinConfig where
  "longLabelConfig = emptyModulesConfig\<lparr>domain := Some longLabelDomain\<rparr>"

subsection \<open>A platform and documents for the config store\<close>

text \<open>
  A stand-in for the platform, in the manner of the mocks of the test suite: paths resolve
  against \<open>/work\<close>, and the JSON functions know one document and its text.
\<close>

definition stubPlatform :: "jsvalue \<Rightarrow> string \<Rightarrow> platform" where
  "stubPlatform document text =
     \<lparr>path_resolve = (\<lambda>p. if take 1 p = ''/'' then p else ''/work/'' @ p),
      JSON_stringify = (\<lambda>v. if v = document then text else ''null''),
      JSON_parse = (\<lambda>s. if s = text @ [CHR 0x0A] then Inr document
                         else Inl (Error ''Unexpected token in JSON''))\<rparr>"

text \<open>The disk of the test: the temporary directory exists and is empty.\<close>

definition testDisk :: filesystem where
  "testDisk = [''/'' \<mapsto> Directory, ''/tmp'' \<mapsto> Directory, ''/tmp/grablin-test'' \<mapsto> Directory]"

text \<open>A disk with the root directory alone.\<close>

definition rootDisk :: filesystem where
  "rootDisk = [''/'' \<mapsto> Directory]"

definition testPath :: string where
  "testPath = ''/tmp/grablin-test/grablin.json''"

text \<open>The configuration of the test "saves and loads config correctly".\<close>

definition testDocument :: jsobject where
  "testDocument =
     [(''projectName'', JString ''TestApp''), (''domain'', JString ''test.com''),
      (''owner'', JString ''test@example.com''), (''modules'', JArray []),
      (''environments'', JArray [JString ''dev'', JString ''prod''])]"

definition quoted :: "string \<Rightarrow> string" where
  "quoted s = [CHR 0x22] @ s @ [CHR 0x22]"

text \<open>The text of the test configuration under a version, indented by two spaces.\<close>

definition documentText :: "string \<Rightarrow> string" where
  "documentText v =
     ''{'' @ [CHR 0x0A] @
     ''  '' @ quoted ''version'' @ '': '' @ quoted v @ '','' @ [CHR 0x0A] @
     ''  '' @ quoted ''projectName'' @ '': '' @ quoted ''TestApp'' @ '','' @ [CHR 0x0A] @
     ''  '' @ quoted ''domain'' @ '': '' @ quoted ''test.com'' @ '','' @ [CHR 0x0A] @
     ''  '' @ quoted ''owner'' @ '': '' @ quoted ''test@example.com'' @ '','' @ [CHR 0x0A] @
     ''  '' @ quoted ''modules'' @ '': [],'' @ [CHR 0x0A] @
     ''  '' @ quoted ''environments'' @ '': ['' @ [CHR 0x0A] @
     ''    '' @ quoted ''dev'' @ '','' @ [CHR 0x0A] @
     ''    '' @ quoted ''prod'' @ [CHR 0x0A] @
     ''  ]'' @ [CHR 0x0A] @
     ''}''"

definition versioned :: "string \<Rightarrow> jsobject" where
  "versioned v = (''version'', JString v) # testDocument"

section \<open>Properties of the credential resolver\<close>

lemma truthy_Some [simp]: "truthy (Some s) = (s \<noteq> [])"
  by (simp add: truthy_def)

lemma truthy_None [simp]: "\<not> truthy None"
  by (simp add: truthy_def)

lemma getToken_cases:
  "getToken env =
     (if truthy (env ''GITHUB_TOKEN'') then Inr (the (env ''GITHUB_TOKEN''))
      else if truthy (env ''GH_TOKEN'') then Inr (the (env ''GH_TOKEN''))
      else Inl (AuthError authErrorMessage))"
  by (simp add: getToken_def js_or_def Let_def)

lemma hasToken_iff: "hasToken env = (truthy (env ''GITHUB_TOKEN'') \<or> truthy (env ''GH_TOKEN''))"
  by (simp add: hasToken_def js_or_def)

lemma hasToken_getToken: "hasToken env = (\<exists>t. getToken env = Inr t)"
  by (auto simp: hasToken_iff getToken_cases)

lemma no_token_getToken: "\<not> hasToken env \<Longrightarrow> getToken env = Inl (AuthError authErrorMessage)"
  by (simp add: hasToken_iff getToken_cases)

lemma message_names_primary: "includes_str authErrorMessage ''GITHUB_TOKEN''"
  by code_simp

lemma message_names_secondary: "includes_str authErrorMessage ''GH_TOKEN''"
  by code_simp

lemma message_names_url: "includes_str authErrorMessage ''https://github.com/settings/tokens''"
  by code_simp

lemma message_token_required: "includes_str authErrorMessage ''GitHub token required''"
  by code_simp

text \<open>
  C8. \<open>getToken\<close> reads \<open>GITHUB_TOKEN\<close> first and \<open>GH_TOKEN\<close> as the fallback: in every
  environment where both hold a non-empty string it returns the value of \<open>GITHUB_TOKEN\<close>.
\<close>

theorem getToken_prefers_primary:
  assumes "env ''GITHUB_TOKEN'' = Some a" and "a \<noteq> []"
    and "env ''GH_TOKEN'' = Some b" and "b \<noteq> []"
  shows "getToken env = Inr a"
  using assms by (simp add: getToken_cases)

theorem getToken_prefers_primary_witness:
  "getToken (map_of [(''GITHUB_TOKEN'', ''A''), (''GH_TOKEN'', ''B'')]) = Inr ''A''"
  using getToken_prefers_primary
    [of "map_of [(''GITHUB_TOKEN'', ''A''), (''GH_TOKEN'', ''B'')]" "''A''" "''B''"]
  by simp

text \<open>
  C9. \<open>getAuthHeaders\<close> returns exactly the one header \<open>Authorization: Bearer <token>\<close>
  when \<open>getToken\<close> returns a token and hands on the failure of \<open>getToken\<close> otherwise. It
  fails exactly when neither variable holds a non-empty string, and then only with the
  \<open>AuthError\<close> whose message names \<open>GITHUB_TOKEN\<close>, \<open>GH_TOKEN\<close> and the address where a token
  is created.
\<close>

theorem getAuthHeaders_contract:
  "(\<forall>token. getToken env = Inr token \<longrightarrow>
      getAuthHeaders env = Inr [(''Authorization'', ''Bearer '' @ token)]) \<and>
   (\<forall>e. getToken env = Inl e \<longrightarrow> getAuthHeaders env = Inl e) \<and>
   ((\<exists>e. getAuthHeaders env = Inl e) \<longleftrightarrow>
      \<not> truthy (env ''GITHUB_TOKEN'') \<and> \<not> truthy (env ''GH_TOKEN'')) \<and>
   (\<forall>e. getAuthHeaders env = Inl e \<longrightarrow>
      e = AuthError authErrorMessage \<and>
      includes_str (message e) ''GITHUB_TOKEN'' \<and> includes_str (message e) ''GH_TOKEN'' \<and>
      includes_str (message e) ''https://github.com/settings/tokens'')"
  by (auto simp: getAuthHeaders_def getToken_cases message_names_primary
        message_names_secondary message_names_url split: sum.splits if_splits)

theorem getAuthHeaders_contract_witness:
  "getAuthHeaders (map_of [(''GITHUB_TOKEN'', ''ghp_mytoken'')]) =
     Inr [(''Authorization'', ''Bearer ghp_mytoken'')] \<and>
   getAuthHeaders (map_of [(''GITHUB_TOKEN'', [])]) = Inl (AuthError authErrorMessage) \<and>
   includes_str authErrorMessage ''GH_TOKEN''"
proof -
  have tok: "getToken (map_of [(''GITHUB_TOKEN'', ''ghp_mytoken'')]) = Inr ''ghp_mytoken''"
    by (simp add: getToken_def js_or_def)
  have none: "getToken (map_of [(''GITHUB_TOKEN'', [])]) = Inl (AuthError authErrorMessage)"
    by (simp add: getToken_def js_or_def)
  from getAuthHeaders_contract [of "map_of [(''GITHUB_TOKEN'', ''ghp_mytoken'')]"] tok
  have 1: "getAuthHeaders (map_of [(''GITHUB_TOKEN'', ''ghp_mytoken'')]) =
             Inr [(''Authorization'', ''Bearer ghp_mytoken'')]"
    by simp
  from getAuthHeaders_contract [of "map_of [(''GITHUB_TOKEN'', [])]"] none
  have 2: "getAuthHeaders (map_of [(''GITHUB_TOKEN'', [])]) = Inl (AuthError authErrorMessage)"
    by blast
  from getAuthHeaders_contract [of "map_of [(''GITHUB_TOKEN'', [])]"] 2
  have 3: "includes_str authErrorMessage ''GH_TOKEN''"
    by (metis message.simps(1))
  from 1 2 3 show ?thesis by simp
qed

text \<open>
  C10. An empty string counts as no credential: with \<open>GITHUB_TOKEN\<close> empty and \<open>GH_TOKEN\<close>
  non-empty, \<open>getToken\<close> returns the value of \<open>GH_TOKEN\<close> and \<open>hasToken\<close> is true; with both
  variables empty or unset, \<open>getToken\<close> throws the \<open>AuthError\<close> and \<open>hasToken\<close> is false.
\<close>

theorem empty_string_is_absent:
  "(env ''GITHUB_TOKEN'' = Some [] \<and> env ''GH_TOKEN'' = Some b \<and> b \<noteq> [] \<longrightarrow>
      getToken env = Inr b \<and> hasToken env) \<and>
   ((env ''GITHUB_TOKEN'' = None \<or> env ''GITHUB_TOKEN'' = Some []) \<and>
    (env ''GH_TOKEN'' = None \<or> env ''GH_TOKEN'' = Some []) \<longrightarrow>
      getToken env = Inl (AuthError authErrorMessage) \<and> \<not> hasToken env)"
proof (intro conjI impI)
  assume h: "env ''GITHUB_TOKEN'' = Some [] \<and> env ''GH_TOKEN'' = Some b \<and> b \<noteq> []"
  then show "getToken env = Inr b" by (simp add: getToken_cases)
  from h show "hasToken env" by (simp add: hasToken_iff)
next
  assume h: "(env ''GITHUB_TOKEN'' = None \<or> env ''GITHUB_TOKEN'' = Some []) \<and>
             (env ''GH_TOKEN'' = None \<or> env ''GH_TOKEN'' = Some [])"
  then have f: "\<not> truthy (env ''GITHUB_TOKEN'')" "\<not> truthy (env ''GH_TOKEN'')"
    by auto
  then show "getToken env = Inl (AuthError authErrorMessage)" by (simp add: getToken_cases)
  from f show "\<not> hasToken env" by (simp add: hasToken_iff)
qed

theorem empty_string_is_absent_witness:
  "getToken (map_of [(''GITHUB_TOKEN'', []), (''GH_TOKEN'', ''ghp_b'')]) = Inr ''ghp_b'' \<and>
   hasToken (map_of [(''GITHUB_TOKEN'', []), (''GH_TOKEN'', ''ghp_b'')]) \<and>
   getToken (map_of [(''GITHUB_TOKEN'', []), (''GH_TOKEN'', [])]) =
     Inl (AuthError authErrorMessage) \<and>
   \<not> hasToken (map_of [(''GITHUB_TOKEN'', []), (''GH_TOKEN'', [])]) \<and>
   getToken (map_of []) = Inl (AuthError authErrorMessage) \<and> \<not> hasToken (map_of [])"
  using empty_string_is_absent
          [of "map_of [(''GITHUB_TOKEN'', []), (''GH_TOKEN'', ''ghp_b'')]" "''ghp_b''"]
        empty_string_is_absent [of "map_of [(''GITHUB_TOKEN'', []), (''GH_TOKEN'', [])]"]
        empty_string_is_absent [of "map_of []"]
  by simp

section \<open>Properties of the identity lookup\<close>

lemma loop_end: "3 \<le> attempt \<Longrightarrow> getGitHubUser_loop env net attempt tr = (Inr JNull, tr)"
  by (subst getGitHubUser_loop.simps) (simp add: maxRetries_def)

lemma loop_step:
  assumes "getAuthHeaders env = Inr auth" and "attempt < 3"
  shows "getGitHubUser_loop env net attempt tr =
     (case net (calls tr) (userRequest auth) of
        Rejected e \<Rightarrow>
          getGitHubUser_loop env net (attempt + 1)
            (backoff attempt (tr @ [Fetch (userRequest auth)]))
      | Resolved response \<Rightarrow>
          if ok response then (json response, tr @ [Fetch (userRequest auth)])
          else if 400 \<le> status response \<and> status response < 500
            then (Inr JNull, tr @ [Fetch (userRequest auth)])
          else getGitHubUser_loop env net (attempt + 1)
                 (backoff attempt (tr @ [Fetch (userRequest auth)])))"
  using assms by (subst getGitHubUser_loop.simps) (simp add: maxRetries_def)

lemma backoff_0: "backoff 0 tr = tr @ [Sleep 1000]"
  by (simp add: backoff_def maxRetries_def baseDelay_def)

lemma backoff_1: "backoff (Suc 0) tr = tr @ [Sleep 2000]"
  by (simp add: backoff_def maxRetries_def baseDelay_def)

lemma backoff_2: "backoff (Suc (Suc 0)) tr = tr"
  by (simp add: backoff_def maxRetries_def baseDelay_def)

lemma transient_step:
  assumes "getAuthHeaders env = Inr auth" and "attempt < 3"
    and "transient (net (calls tr) (userRequest auth))"
  shows "getGitHubUser_loop env net attempt tr =
           getGitHubUser_loop env net (attempt + 1)
             (backoff attempt (tr @ [Fetch (userRequest auth)]))"
  using assms(3) unfolding loop_step [OF assms(1,2)]
  by (auto simp: transient_def ok_def split: fetch_result.splits)

lemma client_error_step:
  assumes "getAuthHeaders env = Inr auth" and "attempt < 3"
    and "client_error (net (calls tr) (userRequest auth))"
  shows "getGitHubUser_loop env net attempt tr = (Inr JNull, tr @ [Fetch (userRequest auth)])"
  using assms(3) unfolding loop_step [OF assms(1,2)]
  by (auto simp: client_error_def ok_def split: fetch_result.splits)

lemma calls_Nil [simp]: "calls [] = 0"
  by (simp add: calls_def)

lemma three_transient_failures:
  assumes auth: "getAuthHeaders env = Inr auth"
    and t0: "transient (net 0 (userRequest auth))"
    and t1: "transient (net (Suc 0) (userRequest auth))"
    and t2: "transient (net (Suc (Suc 0)) (userRequest auth))"
  shows "getGitHubUser_loop env net 0 [] =
           (Inr JNull, [Fetch (userRequest auth), Sleep 1000,
                        Fetch (userRequest auth), Sleep 2000,
                        Fetch (userRequest auth)])"
proof -
  let ?F = "Fetch (userRequest auth)"
  have s0: "getGitHubUser_loop env net 0 [] =
              getGitHubUser_loop env net (Suc 0) [?F, Sleep 1000]"
    using transient_step [OF auth, of 0 net "[]"] t0 by (simp add: backoff_0)
  have s1: "getGitHubUser_loop env net (Suc 0) [?F, Sleep 1000] =
              getGitHubUser_loop env net (Suc (Suc 0)) [?F, Sleep 1000, ?F, Sleep 2000]"
    using transient_step [OF auth, of "Suc 0" net "[?F, Sleep 1000]"] t1
    by (simp add: backoff_1 calls_def)
  have s2: "getGitHubUser_loop env net (Suc (Suc 0)) [?F, Sleep 1000, ?F, Sleep 2000] =
              getGitHubUser_loop env net 3 [?F, Sleep 1000, ?F, Sleep 2000, ?F]"
    using transient_step [OF auth, of "Suc (Suc 0)" net "[?F, Sleep 1000, ?F, Sleep 2000]"] t2
    by (simp add: backoff_2 calls_def numeral_3_eq_3)
  show ?thesis
    unfolding s0 s1 s2 by (simp add: loop_end)
qed

lemma transient_then_client_error:
  assumes auth: "getAuthHeaders env = Inr auth"
    and t0: "transient (net 0 (userRequest auth))"
    and c1: "client_error (net (Suc 0) (userRequest auth))"
  shows "getGitHubUser_loop env net 0 [] =
           (Inr JNull, [Fetch (userRequest auth), Sleep 1000, Fetch (userRequest auth)])"
proof -
  let ?F = "Fetch (userRequest auth)"
  have s0: "getGitHubUser_loop env net 0 [] =
              getGitHubUser_loop env net (Suc 0) [?F, Sleep 1000]"
    using transient_step [OF auth, of 0 net "[]"] t0 by (simp add: backoff_0)
  have s1: "getGitHubUser_loop env net (Suc 0) [?F, Sleep 1000] =
              (Inr JNull, [?F, Sleep 1000, ?F])"
    using client_error_step [OF auth, of "Suc 0" net "[?F, Sleep 1000]"] c1
    by (simp add: calls_def)
  show ?thesis
    unfolding s0 s1 ..
qed

lemma two_transient_then_client_error:
  assumes auth: "getAuthHeaders env = Inr auth"
    and t0: "transient (net 0 (userRequest auth))"
    and t1: "transient (net (Suc 0) (userRequest auth))"
    and c2: "client_error (net (Suc (Suc 0)) (userRequest auth))"
  shows "getGitHubUser_loop env net 0 [] =
           (Inr JNull, [Fetch (userRequest auth), Sleep 1000,
                        Fetch (userRequest auth), Sleep 2000,
                        Fetch (userRequest auth)])"
proof -
  let ?F = "Fetch (userRequest auth)"
  have s0: "getGitHubUser_loop env net 0 [] =
              getGitHubUser_loop env net (Suc 0) [?F, Sleep 1000]"
    using transient_step [OF auth, of 0 net "[]"] t0 by (simp add: backoff_0)
  have s1: "getGitHubUser_loop env net (Suc 0) [?F, Sleep 1000] =
              getGitHubUser_loop env net (Suc (Suc 0)) [?F, Sleep 1000, ?F, Sleep 2000]"
    using transient_step [OF auth, of "Suc 0" net "[?F, Sleep 1000]"] t1
    by (simp add: backoff_1 calls_def)
  have s2: "getGitHubUser_loop env net (Suc (Suc 0)) [?F, Sleep 1000, ?F, Sleep 2000] =
              (Inr JNull, [?F, Sleep 1000, ?F, Sleep 2000, ?F])"
    using client_error_step [OF auth, of "Suc (Suc 0)" net "[?F, Sleep 1000, ?F, Sleep 2000]"] c2
    by (simp add: calls_def)
  show ?thesis
    unfolding s0 s1 s2 ..
qed

lemma tokenEnv_headers: "getAuthHeaders tokenEnv = Inr [(''Authorization'', ''Bearer ghp_test'')]"
  by (simp add: getAuthHeaders_def getToken_def js_or_def tokenEnv_def)

lemma tokenEnv_hasToken: "hasToken tokenEnv"
  by (simp add: hasToken_def js_or_def tokenEnv_def)

lemma auth_hasToken: "getAuthHeaders env = Inr auth \<Longrightarrow> hasToken env"
  by (auto simp: hasToken_getToken getAuthHeaders_def split: sum.splits)

text \<open>
  C1, as the code has it. With a credential present, a response with a status from 400 to
  499 ends the lookup at once: when the calls before it failed with a status from 500 to
  599 or a rejected \<open>fetch\<close>, the result is \<open>null\<close> and no call follows. When the three calls
  all fail in that way, the lookup makes three calls and returns \<open>null\<close>. The waits are
  \<open>1000 = baseDelay * 2^0\<close> milliseconds after the first failed call and
  \<open>2000 = baseDelay * 2^1\<close> after the second; there is no wait after the third call.
  Whatever the network does, the trace is one call, or two calls around the wait of 1000,
  or three calls with the waits of 1000 and 2000 between them.
\<close>

theorem getGitHubUser_retry:
  assumes "getAuthHeaders env = Inr auth"
  shows "(\<forall>k<3. (\<forall>j<k. transient (net j (userRequest auth))) \<and>
                 client_error (net k (userRequest auth)) \<longrightarrow>
            fst (getGitHubUser env net) = Inr JNull \<and>
            calls (snd (getGitHubUser env net)) = Suc k \<and>
            waits (snd (getGitHubUser env net)) = take k [1000, 2000]) \<and>
         ((\<forall>k<3. transient (net k (userRequest auth))) \<longrightarrow>
            getGitHubUser env net =
              (Inr JNull, [Fetch (userRequest auth), Sleep 1000,
                           Fetch (userRequest auth), Sleep 2000,
                           Fetch (userRequest auth)])) \<and>
         snd (getGitHubUser env net) \<in>
           {[Fetch (userRequest auth)],
            [Fetch (userRequest auth), Sleep 1000, Fetch (userRequest auth)],
            [Fetch (userRequest auth), Sleep 1000, Fetch (userRequest auth), Sleep 2000,
             Fetch (userRequest auth)]}"
proof -
  let ?req = "userRequest auth"
  have start: "getGitHubUser env net = getGitHubUser_loop env net 0 []"
    using auth_hasToken [OF assms] by (simp add: getGitHubUser_def)
  have a: "fst (getGitHubUser env net) = Inr JNull \<and>
           calls (snd (getGitHubUser env net)) = Suc k \<and>
           waits (snd (getGitHubUser env net)) = take k [1000, 2000]"
    if k: "k < 3" and t: "\<forall>j<k. transient (net j ?req)" and c: "client_error (net k ?req)" for k
  proof -
    from k consider "k = 0" | "k = Suc 0" | "k = Suc (Suc 0)" by linarith
    then show ?thesis
    proof cases
      case 1
      with c have "getGitHubUser env net = (Inr JNull, [Fetch ?req])"
        using client_error_step [OF assms, of 0 net "[]"] start by simp
      with 1 show ?thesis by (simp add: calls_def)
    next
      case 2
      with t c have "getGitHubUser env net = (Inr JNull, [Fetch ?req, Sleep 1000, Fetch ?req])"
        unfolding start by (intro transient_then_client_error [OF assms]) simp_all
      with 2 show ?thesis by (simp add: calls_def)
    next
      case 3
      with t c have "getGitHubUser env net =
          (Inr JNull, [Fetch ?req, Sleep 1000, Fetch ?req, Sleep 2000, Fetch ?req])"
        unfolding start by (intro two_transient_then_client_error [OF assms]) simp_all
      with 3 show ?thesis by (simp add: calls_def)
    qed
  qed
  have b: "getGitHubUser env net =
             (Inr JNull, [Fetch ?req, Sleep 1000, Fetch ?req, Sleep 2000, Fetch ?req])"
    if t: "\<forall>k<3. transient (net k ?req)"
    unfolding start using t by (intro three_transient_failures [OF assms]) simp_all
  have c: "snd (getGitHubUser env net) \<in>
           {[Fetch ?req], [Fetch ?req, Sleep 1000, Fetch ?req],
            [Fetch ?req, Sleep 1000, Fetch ?req, Sleep 2000, Fetch ?req]}"
    unfolding start
    by (simp add: loop_step [OF assms] backoff_0 backoff_1 backoff_2 loop_end calls_def
          numeral_3_eq_3 split: fetch_result.splits)
  from a b c show ?thesis by blast
qed

lemma statuses_all_500: "transient (statuses [500, 500, 500] k r)"
  by (simp add: transient_def statuses_def nth_Cons split: nat.splits)

lemma statuses_500_404:
  "transient (statuses [500, 404] 0 r) \<and> client_error (statuses [500, 404] (Suc 0) r)"
  by (simp add: statuses_def transient_def client_error_def)

theorem getGitHubUser_retry_witness:
  "fst (getGitHubUser tokenEnv (statuses [404])) = Inr JNull \<and>
   calls (snd (getGitHubUser tokenEnv (statuses [404]))) = 1 \<and>
   waits (snd (getGitHubUser tokenEnv (statuses [404]))) = [] \<and>
   fst (getGitHubUser tokenEnv (statuses [500, 404])) = Inr JNull \<and>
   calls (snd (getGitHubUser tokenEnv (statuses [500, 404]))) = 2 \<and>
   waits (snd (getGitHubUser tokenEnv (statuses [500, 404]))) = [1000] \<and>
   getGitHubUser tokenEnv (statuses [500, 500, 500]) =
     (Inr JNull, [Fetch tokenRequest, Sleep 1000, Fetch tokenRequest, Sleep 2000,
                  Fetch tokenRequest]) \<and>
   getGitHubUser tokenEnv unreachable =
     (Inr JNull, [Fetch tokenRequest, Sleep 1000, Fetch tokenRequest, Sleep 2000,
                  Fetch tokenRequest])"
proof -
  let ?r = "userRequest [(''Authorization'', ''Bearer ghp_test'')]"
  note inst = getGitHubUser_retry [OF tokenEnv_headers]
  have c0: "client_error (statuses [404] 0 ?r)"
    by (simp add: statuses_def client_error_def)
  have "0 < (3::nat) \<and> (\<forall>j<0. transient (statuses [404] j ?r)) \<and>
        client_error (statuses [404] 0 ?r)"
    using c0 by simp
  with inst [of "statuses [404]"]
  have 1: "fst (getGitHubUser tokenEnv (statuses [404])) = Inr JNull \<and>
           calls (snd (getGitHubUser tokenEnv (statuses [404]))) = Suc 0 \<and>
           waits (snd (getGitHubUser tokenEnv (statuses [404]))) = take 0 [1000, 2000]"
    by blast
  have "Suc 0 < (3::nat) \<and> (\<forall>j<Suc 0. transient (statuses [500, 404] j ?r)) \<and>
        client_error (statuses [500, 404] (Suc 0) ?r)"
    using statuses_500_404 [of ?r] by simp
  with inst [of "statuses [500, 404]"]
  have 2: "fst (getGitHubUser tokenEnv (statuses [500, 404])) = Inr JNull \<and>
           calls (snd (getGitHubUser tokenEnv (statuses [500, 404]))) = Suc (Suc 0) \<and>
           waits (snd (getGitHubUser tokenEnv (statuses [500, 404]))) = take (Suc 0) [1000, 2000]"
    by blast
  have 3: "getGitHubUser tokenEnv (statuses [500, 500, 500]) =
             (Inr JNull, [Fetch ?r, Sleep 1000, Fetch ?r, Sleep 2000, Fetch ?r])"
    using inst [of "statuses [500, 500, 500]"] statuses_all_500
    by simp
  have 4: "getGitHubUser tokenEnv unreachable =
             (Inr JNull, [Fetch ?r, Sleep 1000, Fetch ?r, Sleep 2000, Fetch ?r])"
    using inst [of unreachable] by (simp add: unreachable_def transient_def)
  from 1 2 3 4 show ?thesis by (simp add: tokenRequest_def)
qed

text \<open>
  The claim C1 as stated has waits after the attempts 0, 1 and 2, of 1000, 2000 and 4000
  milliseconds. Against a server that always answers 500 the lookup waits twice, 1000 and
  2000 milliseconds.
\<close>

theorem getGitHubUser_waits_counterexample:
  "waits (snd (getGitHubUser tokenEnv (statuses [500, 500, 500]))) = [1000, 2000] \<and>
   calls (snd (getGitHubUser tokenEnv (statuses [500, 500, 500]))) = 3"
proof -
  have t: "transient (statuses [500, 500, 500] k r)" for k r
    by (rule statuses_all_500)
  have "getGitHubUser tokenEnv (statuses [500, 500, 500]) =
          getGitHubUser_loop tokenEnv (statuses [500, 500, 500]) 0 []"
    using tokenEnv_hasToken by (simp add: getGitHubUser_def)
  also have "\<dots> = (Inr JNull, [Fetch tokenRequest, Sleep 1000, Fetch tokenRequest, Sleep 2000,
                               Fetch tokenRequest])"
    unfolding tokenRequest_def by (rule three_transient_failures [OF tokenEnv_headers t t t])
  finally show ?thesis by (simp add: calls_def)
qed

text \<open>
  C4 fails on a response that is \<open>ok\<close> and whose body is not JSON: the promise of
  \<open>response.json()\<close> is returned from inside \<open>try\<close> without \<open>await\<close>, so its rejection is the
  rejection of \<open>getGitHubUser\<close>.
\<close>

theorem getGitHubUser_rejects_on_bad_body:
  "getGitHubUser tokenEnv (respond 200 (Inl (Error ''Unexpected end of JSON input''))) =
     (Inl (Error ''Unexpected end of JSON input''), [Fetch tokenRequest])"
proof -
  have "getGitHubUser tokenEnv (respond 200 (Inl (Error ''Unexpected end of JSON input''))) =
          getGitHubUser_loop tokenEnv
            (respond 200 (Inl (Error ''Unexpected end of JSON input''))) 0 []"
    using tokenEnv_hasToken by (simp add: getGitHubUser_def)
  then show ?thesis
    by (simp add: loop_step [OF tokenEnv_headers] respond_def ok_def tokenRequest_def)
qed

text \<open>Without a credential there is no call, and the result is \<open>null\<close>.\<close>

lemma getGitHubUser_no_credential: "\<not> hasToken env \<Longrightarrow> getGitHubUser env net = (Inr JNull, [])"
  by (simp add: getGitHubUser_def)

text \<open>
  And as long as no \<open>ok\<close> response has a body that fails to parse, the lookup returns a value
  whatever else the network does.
\<close>

lemma loop_returns:
  "(\<And>k req r. net k req = Resolved r \<Longrightarrow> ok r \<Longrightarrow> \<exists>v. json r = Inr v) \<Longrightarrow>
   \<exists>v. fst (getGitHubUser_loop env net attempt tr) = Inr v"
proof (induction env net attempt tr rule: getGitHubUser_loop.induct)
  case (1 env net attempt tr)
  note parses = "1.prems"
  show ?case
    using "1.IH" parses
    by (subst getGitHubUser_loop.simps)
       (auto split: sum.splits fetch_result.splits intro: parses)
qed

lemma getGitHubUser_returns:
  assumes "\<And>k req r. net k req = Resolved r \<Longrightarrow> ok r \<Longrightarrow> \<exists>v. json r = Inr v"
  shows "\<exists>v. fst (getGitHubUser env net) = Inr v"
  using loop_returns [of net] assms by (simp add: getGitHubUser_def)

section \<open>Properties of the generation orchestrator\<close>

text \<open>
  C7. Without a credential \<open>generate\<close> returns the failure outcome whose message is the
  message of the \<open>AuthError\<close> of \<open>getToken\<close>, which contains \<open>GitHub token required\<close>, and
  its trace has no network call.
\<close>

theorem generate_requires_token:
  assumes "\<not> hasToken env"
  shows "getToken env = Inl (AuthError authErrorMessage) \<and>
         generate archiveFiles env net opts = (Failure authErrorMessage, []) \<and>
         includes_str authErrorMessage ''GitHub token required''"
  using assms
  by (simp add: no_token_getToken generate_def getAuthHeaders_def message_token_required)

theorem generate_requires_token_witness:
  "\<not> hasToken emptyEnv \<and>
   generate length emptyEnv unreachable localOptions = (Failure authErrorMessage, [])"
proof -
  have h: "\<not> hasToken emptyEnv"
    by (simp add: hasToken_def js_or_def emptyEnv_def)
  from generate_requires_token [OF h, of length unreachable localOptions] h
  show ?thesis by simp
qed

section \<open>Properties of the schema validator\<close>

lemma validateConfig_errors:
  "errors (validateConfig cfg) =
     projectNameErrors cfg @ domainErrors cfg @ ownerErrors cfg @ modulesErrors cfg"
  by (simp add: validateConfig_def Let_def)

lemma validateConfig_valid: "valid (validateConfig cfg) = (errors (validateConfig cfg) = [])"
  by (simp add: validateConfig_def Let_def)

lemma validateConfig_warnings:
  "warnings (validateConfig cfg) = modulesWarnings cfg @ environmentsWarnings cfg"
  by (simp add: validateConfig_def Let_def)

subsection \<open>Module identifiers\<close>

lemma includes_mid: "includes_str (p @ s @ r) s"
  by (simp add: includes_str_def)

lemma moduleId_in_message: "includes_str (pfx @ ''.moduleId'' @ r) ''moduleId''"
proof -
  have "pfx @ ''.moduleId'' @ r = (pfx @ ''.'') @ ''moduleId'' @ r" by simp
  then show ?thesis by (metis includes_mid)
qed

lemma hyphen_nonempty: "includes_str mid ''--'' \<or> endsWith mid ''-'' \<Longrightarrow> mid \<noteq> []"
  by (auto simp: includes_str_def endsWith_def)

lemma moduleIdErrors_hyphen:
  assumes "moduleId module = Some mid" and "includes_str mid ''--'' \<or> endsWith mid ''-''"
  shows "\<exists>r. moduleIdErrors pfx module = [pfx @ ''.moduleId'' @ r]"
proof -
  have ne: "mid \<noteq> []" using assms(2) by (rule hyphen_nonempty)
  show ?thesis
  proof (cases "test moduleIdPattern mid")
    case True
    then have "moduleIdErrors pfx module =
                 [pfx @ ''.moduleId'' @ '' cannot end with hyphen or contain consecutive hyphens'']"
      using assms ne by (auto simp: moduleIdErrors_def)
    then show ?thesis by blast
  next
    case False
    then have "moduleIdErrors pfx module =
                 [pfx @ ''.moduleId'' @ '' must be lowercase, start with a letter, use hyphens only, and be 1-100 chars'']"
      using assms ne by (simp add: moduleIdErrors_def)
    then show ?thesis by blast
  qed
qed

text \<open>
  C6. A module whose \<open>moduleId\<close> contains \<open>--\<close> or ends in \<open>-\<close> gets at least one error
  that mentions \<open>moduleId\<close>, whatever its index and its other fields are.
\<close>

theorem validateModule_hyphen_error:
  assumes "moduleId module = Some mid" and "includes_str mid ''--'' \<or> endsWith mid ''-''"
  shows "\<exists>e \<in> set (validateModule module index). includes_str e ''moduleId''"
proof -
  obtain r where "moduleIdErrors (''modules['' @ show_nat index @ '']'') module =
                    [(''modules['' @ show_nat index @ '']'') @ ''.moduleId'' @ r]"
    using moduleIdErrors_hyphen [OF assms] by blast
  then have "(''modules['' @ show_nat index @ '']'') @ ''.moduleId'' @ r
               \<in> set (validateModule module index)"
    by (simp add: validateModule_def Let_def)
  then show ?thesis
    using moduleId_in_message by blast
qed

lemma hyphenModule_errors:
  "validateModule hyphenModule 0 =
     [''modules[0].moduleId cannot end with hyphen or contain consecutive hyphens'']"
  by code_simp

theorem validateModule_hyphen_error_witness:
  "includes_str ''a--b'' ''--'' \<and>
   (\<exists>e \<in> set (validateModule hyphenModule 0). includes_str e ''moduleId'')"
proof -
  have m: "moduleId hyphenModule = Some ''a--b''" by (simp add: hyphenModule_def)
  have h: "includes_str ''a--b'' ''--''" by code_simp
  from validateModule_hyphen_error [OF m, of 0] h show ?thesis by simp
qed

subsection \<open>Empty module lists\<close>

text \<open>
  C3, as the code has it. When \<open>modules\<close> is the empty array, the warnings contain
  \<open>No modules specified - project will be empty\<close> and the empty array adds no error: the
  errors are those of \<open>projectName\<close>, \<open>domain\<close> and \<open>owner\<close>, and the result is valid exactly
  when these three pass.
\<close>

theorem empty_modules_warning:
  assumes "modules cfg = Some []"
  shows "''No modules specified - project will be empty'' \<in> set (warnings (validateConfig cfg)) \<and>
         includes_str ''No modules specified - project will be empty'' ''empty'' \<and>
         errors (validateConfig cfg) =
           projectNameErrors cfg @ domainErrors cfg @ ownerErrors cfg \<and>
         valid (validateConfig cfg) =
           (projectNameErrors cfg = [] \<and> domainErrors cfg = [] \<and> ownerErrors cfg = [])"
proof -
  have w: "modulesWarnings cfg = [''No modules specified - project will be empty'']"
    using assms by (simp add: modulesWarnings_def)
  have e: "modulesErrors cfg = []"
    using assms by (simp add: modulesErrors_def)
  have i: "includes_str ''No modules specified - project will be empty'' ''empty''"
    by code_simp
  show ?thesis
    using i by (simp add: validateConfig_errors validateConfig_valid validateConfig_warnings w e)
qed

lemma emptyModulesConfig_valid:
  "projectNameErrors emptyModulesConfig = [] \<and> domainErrors emptyModulesConfig = [] \<and>
   ownerErrors emptyModulesConfig = []"
  by code_simp

theorem empty_modules_warning_witness:
  "modules emptyModulesConfig = Some [] \<and>
   valid (validateConfig emptyModulesConfig) \<and>
   errors (validateConfig emptyModulesConfig) = [] \<and>
   ''No modules specified - project will be empty'' \<in> set (warnings (validateConfig emptyModulesConfig))"
proof -
  have m: "modules emptyModulesConfig = Some []" by (simp add: emptyModulesConfig_def)
  from empty_modules_warning [OF m] emptyModulesConfig_valid m show ?thesis by simp
qed

text \<open>
  The claim C3 as stated has every configuration with an empty \<open>modules\<close> valid. The
  configuration of the test "rejects missing projectName" has an empty \<open>modules\<close> and is
  not valid.
\<close>

theorem empty_modules_invalid_counterexample:
  "modules missingNameConfig = Some [] \<and>
   \<not> valid (validateConfig missingNameConfig) \<and>
   errors (validateConfig missingNameConfig) = [''projectName is required'']"
  by code_simp

subsection \<open>Long domains\<close>

lemma domainErrors_messages: "set (domainErrors cfg) \<subseteq> set domainMessages"
  by (auto simp: domainErrors_def domainMessages_def)

lemma projectNameErrors_messages: "e \<in> set (projectNameErrors cfg) \<Longrightarrow> e \<notin> set domainMessages"
  by (auto simp: projectNameErrors_def domainMessages_def split: if_splits)

lemma ownerErrors_messages: "e \<in> set (ownerErrors cfg) \<Longrightarrow> e \<notin> set domainMessages"
  by (auto simp: ownerErrors_def domainMessages_def split: if_splits)

lemma kindErrors_prefix: "e \<in> set (kindErrors pfx m) \<Longrightarrow> prefix pfx e"
  by (simp add: kindErrors_def split: if_splits)

lemma typeErrors_prefix: "e \<in> set (typeErrors pfx m) \<Longrightarrow> prefix pfx e"
  by (simp add: typeErrors_def split: if_splits)

lemma moduleIdErrors_prefix: "e \<in> set (moduleIdErrors pfx m) \<Longrightarrow> prefix pfx e"
  by (simp add: moduleIdErrors_def split: if_splits)

lemma validateModule_modules:
  assumes "e \<in> set (validateModule m i)"
  shows "prefix ''modules'' e"
proof -
  have "prefix (''modules['' @ show_nat i @ '']'') e"
    using assms kindErrors_prefix typeErrors_prefix moduleIdErrors_prefix
    unfolding validateModule_def Let_def set_append Un_iff by blast
  moreover have "prefix ''modules'' (''modules['' @ show_nat i @ '']'')"
    by simp
  ultimately show ?thesis
    by (auto simp: prefix_def)
qed

lemma modulesErrors_modules:
  assumes "e \<in> set (modulesErrors cfg)"
  shows "prefix ''modules'' e"
proof (cases "modules cfg")
  case None
  with assms show ?thesis by (simp add: modulesErrors_def)
next
  case (Some ms)
  with assms obtain i m where "e \<in> set (validateModule m i)"
    by (auto simp: modulesErrors_def split: if_splits)
  then show ?thesis by (rule validateModule_modules)
qed

lemma modulesErrors_messages: "e \<in> set (modulesErrors cfg) \<Longrightarrow> e \<notin> set domainMessages"
  by (auto simp: domainMessages_def dest!: modulesErrors_modules)

lemma filter_all: "(\<And>x. x \<in> set xs \<Longrightarrow> P x) \<Longrightarrow> filter P xs = xs"
  by (induction xs) auto

lemma filter_none: "(\<And>x. x \<in> set xs \<Longrightarrow> \<not> P x) \<Longrightarrow> filter P xs = []"
  by (induction xs) auto

lemma domain_errors_of_validateConfig: "domain_errors_of (validateConfig cfg) = domainErrors cfg"
proof -
  have 1: "filter (\<lambda>e. e \<in> set domainMessages) (projectNameErrors cfg) = []"
    by (rule filter_none) (rule projectNameErrors_messages)
  have 2: "filter (\<lambda>e. e \<in> set domainMessages) (domainErrors cfg) = domainErrors cfg"
    using domainErrors_messages [of cfg] by (intro filter_all) blast
  have 3: "filter (\<lambda>e. e \<in> set domainMessages) (ownerErrors cfg) = []"
    by (rule filter_none) (rule ownerErrors_messages)
  have 4: "filter (\<lambda>e. e \<in> set domainMessages) (modulesErrors cfg) = []"
    by (rule filter_none) (rule modulesErrors_messages)
  show ?thesis
    by (simp add: domain_errors_of_def validateConfig_errors 1 2 3 4)
qed

text \<open>
  C2, as the code has it. The four checks of \<open>domain\<close> are one chain of \<open>if\<close> and
  \<open>else if\<close>, so a configuration never has more than one domain error. For a domain of more
  than 253 characters that one error is \<open>domain name too long (max 253 characters)\<close> when
  the domain matches the pattern, and the error of the pattern alone when it does not.
\<close>

theorem long_domain_one_error:
  "length (domain_errors_of (validateConfig cfg)) \<le> 1 \<and>
   (\<forall>d. domain cfg = Some d \<and> length d > 253 \<longrightarrow>
      domain_errors_of (validateConfig cfg) =
        (if test domainPattern d then [''domain name too long (max 253 characters)'']
         else [''domain must be a valid domain name (e.g., myapp.com, api.myapp.io)'']))"
  unfolding domain_errors_of_validateConfig
  by (auto simp: domainErrors_def)

lemma manyLabels_matches: "test domainPattern manyLabelsDomain"
  by code_simp

lemma longLabel_fails: "\<not> test domainPattern longLabelDomain"
  by code_simp

lemma manyLabels_length: "length manyLabelsDomain = 255"
  by (simp add: manyLabelsDomain_def length_concat sum_list_replicate)

lemma longLabel_length: "length longLabelDomain = 254"
  by (simp add: longLabelDomain_def)

theorem long_domain_one_error_witness:
  "length manyLabelsDomain > 253 \<and>
   domain_errors_of (validateConfig manyLabelsConfig) =
     [''domain name too long (max 253 characters)''] \<and>
   length longLabelDomain > 253 \<and>
   domain_errors_of (validateConfig longLabelConfig) =
     [''domain must be a valid domain name (e.g., myapp.com, api.myapp.io)'']"
proof -
  have d1: "domain manyLabelsConfig = Some manyLabelsDomain"
    by (simp add: manyLabelsConfig_def)
  have d2: "domain longLabelConfig = Some longLabelDomain"
    by (simp add: longLabelConfig_def)
  from long_domain_one_error [of manyLabelsConfig] d1 manyLabels_length manyLabels_matches
  have 1: "domain_errors_of (validateConfig manyLabelsConfig) =
             [''domain name too long (max 253 characters)'']"
    by simp
  from long_domain_one_error [of longLabelConfig] d2 longLabel_length longLabel_fails
  have 2: "domain_errors_of (validateConfig longLabelConfig) =
             [''domain must be a valid domain name (e.g., myapp.com, api.myapp.io)'']"
    by simp
  from 1 2 show ?thesis by (simp add: manyLabels_length longLabel_length)
qed

lemma longLabelConfig_other:
  "projectNameErrors longLabelConfig = [] \<and> ownerErrors longLabelConfig = [] \<and>
   modulesErrors longLabelConfig = []"
  unfolding longLabelConfig_def projectNameErrors_def ownerErrors_def modulesErrors_def
  by (simp add: emptyModulesConfig_def) code_simp

text \<open>
  The claim C2 as stated has an error about the length for every domain of more than 253
  characters, next to the other domain errors. The domain of 254 characters whose first
  label has 250 letters fails the pattern, is too long and has a label that is too long;
  the one error is that of the pattern.
\<close>

theorem long_domain_counterexample:
  "length longLabelDomain > 253 \<and> list_ex longLabel (split_dot longLabelDomain) \<and>
   errors (validateConfig longLabelConfig) =
     [''domain must be a valid domain name (e.g., myapp.com, api.myapp.io)'']"
proof -
  have d: "domainErrors longLabelConfig =
             [''domain must be a valid domain name (e.g., myapp.com, api.myapp.io)'']"
    using longLabel_fails longLabel_length
    by (auto simp: domainErrors_def longLabelConfig_def)
  have s: "list_ex longLabel (split_dot longLabelDomain)"
    by code_simp
  show ?thesis
    using d s longLabelConfig_other by (simp add: validateConfig_errors longLabel_length)
qed

section \<open>Properties of the config store\<close>

subsection \<open>The order of the keys does not change what a key holds\<close>

lemma map_of_first:
  "map_of xs k = (case filter (\<lambda>p. fst p = k) xs of [] \<Rightarrow> None | p # ps \<Rightarrow> Some (snd p))"
  by (induction xs) auto

lemma filter_key_narrow:
  "filter (\<lambda>p. fst p = k) ys =
     filter (\<lambda>p. fst p = k) (filter (\<lambda>p. digits_value (fst p) = digits_value k) ys)"
  by (induction ys) auto

lemma filter_key_sort:
  "filter (\<lambda>p. fst p = k) (sort_key (\<lambda>p. digits_value (fst p)) xs) = filter (\<lambda>p. fst p = k) xs"
proof -
  have "filter (\<lambda>p. fst p = k) (sort_key (\<lambda>p. digits_value (fst p)) xs) =
          filter (\<lambda>p. fst p = k)
            (filter (\<lambda>p. digits_value (fst p) = digits_value k)
               (sort_key (\<lambda>p. digits_value (fst p)) xs))"
    by (rule filter_key_narrow)
  also have "\<dots> = filter (\<lambda>p. fst p = k) (filter (\<lambda>p. digits_value (fst p) = digits_value k) xs)"
    by (simp only: sort_key_stable)
  also have "\<dots> = filter (\<lambda>p. fst p = k) xs"
    by (rule filter_key_narrow [symmetric])
  finally show ?thesis .
qed

lemma filter_key_index:
  "filter (\<lambda>p. fst p = k) (filter (\<lambda>(k, v). array_index k) obj) =
     (if array_index k then filter (\<lambda>p. fst p = k) obj else [])"
  by (induction obj) auto

lemma filter_key_other:
  "filter (\<lambda>p. fst p = k) (filter (\<lambda>(k, v). \<not> array_index k) obj) =
     (if array_index k then [] else filter (\<lambda>p. fst p = k) obj)"
  by (induction obj) auto

lemma filter_key_split:
  "filter (\<lambda>p. fst p = k) (filter (\<lambda>(k, v). array_index k) obj) @
   filter (\<lambda>p. fst p = k) (filter (\<lambda>(k, v). \<not> array_index k) obj) =
     filter (\<lambda>p. fst p = k) obj"
  unfolding filter_key_index filter_key_other by simp

lemma filter_key_own_keys_order:
  "filter (\<lambda>p. fst p = k) (own_keys_order obj) = filter (\<lambda>p. fst p = k) obj"
proof -
  have f: "(\<lambda>(k, v). digits_value k) = (\<lambda>p :: string \<times> jsvalue. digits_value (fst p))"
    by (simp add: fun_eq_iff)
  show ?thesis
    unfolding own_keys_order_def f filter_append filter_key_sort
    by (rule filter_key_split)
qed

lemma map_of_own_keys_order: "map_of (own_keys_order obj) k = map_of obj k"
  by (simp add: map_of_first [of "own_keys_order obj"] map_of_first [of obj]
        filter_key_own_keys_order)

lemma map_of_base_part:
  "map_of (map (\<lambda>(k, v). (k, case map_of ext k of None \<Rightarrow> v | Some v' \<Rightarrow> v')) base) k =
     (case map_of base k of None \<Rightarrow> None
      | Some v \<Rightarrow> (case map_of ext k of None \<Rightarrow> Some v | Some v' \<Rightarrow> Some v'))"
  by (induction base) (auto split: option.splits)

lemma map_of_ext_part:
  "map_of (filter (\<lambda>(k, v). k \<notin> fst ` set base) ext) k =
     (if k \<in> fst ` set base then None else map_of ext k)"
  by (induction ext) force+

lemma map_of_spread:
  "map_of (spread base ext) k =
     (case map_of ext k of Some v \<Rightarrow> Some v | None \<Rightarrow> map_of base k)"
proof (cases "map_of base k")
  case None
  then have "k \<notin> fst ` set base" by (simp add: map_of_eq_None_iff)
  with None show ?thesis
    by (simp add: spread_def map_of_own_keys_order map_add_def map_of_base_part
          map_of_ext_part split: option.splits)
next
  case (Some v)
  then show ?thesis
    by (simp add: spread_def map_of_own_keys_order map_add_def map_of_base_part
          split: option.splits)
qed

lemma get_prop_spread:
  "get_prop (spread base ext) k =
     (case map_of ext k of Some v \<Rightarrow> v | None \<Rightarrow> get_prop base k)"
  by (simp add: get_prop_def map_of_spread split: option.splits)

text \<open>Array indices come first in a spread, in numeric order; \<open>01\<close> is not one.\<close>

lemma spread_index_keys:
  "spread [(''version'', JString ''1.0'')]
     [(''b'', JNull), (''10'', JNull), (''2'', JNull), (''01'', JNull)] =
   [(''2'', JNull), (''10'', JNull), (''version'', JString ''1.0''), (''b'', JNull),
    (''01'', JNull)]"
  by code_simp

subsection \<open>Saving and loading\<close>

lemma jsonView_undefined [simp]: "jsonView v = JUndefined \<longleftrightarrow> v = JUndefined"
  by (cases v) simp_all

lemma jsonView_string [simp]: "jsonView v = JString s \<longleftrightarrow> v = JString s"
  by (cases v) simp_all

lemma map_of_filter_distinct:
  "distinct (map fst al) \<Longrightarrow>
   map_of (filter (\<lambda>(k, v). P v) al) k =
     (case map_of al k of None \<Rightarrow> None | Some v \<Rightarrow> if P v then Some v else None)"
proof (induction al)
  case Nil
  then show ?case by simp
next
  case (Cons a al)
  obtain k' v' where a: "a = (k', v')" by (cases a)
  from Cons.prems a have "map_of al k' = None"
    by (simp add: map_of_eq_None_iff)
  with Cons a show ?case
    by (auto split: option.splits)
qed

lemma map_of_view:
  "map_of (filter (\<lambda>(k, v). v \<noteq> JUndefined)
             (AList.clearjunk (map (\<lambda>(k, v). (k, jsonView v)) kvs))) k =
     (case map_of kvs k of None \<Rightarrow> None
      | Some v \<Rightarrow> if v = JUndefined then None else Some (jsonView v))"
proof -
  have m: "map_of (map (\<lambda>(k, v). (k, jsonView v)) kvs) k = map_option jsonView (map_of kvs k)"
    by (induction kvs) auto
  show ?thesis
    by (simp add: map_of_filter_distinct distinct_clearjunk map_of_clearjunk m
          split: option.splits)
qed

lemma get_prop_view:
  "jsonView (JObject kvs) = JObject d \<Longrightarrow> get_prop d k = jsonView (get_prop kvs k)"
  by (auto simp: get_prop_def map_of_view split: option.splits if_splits)

lemma string_prop_view:
  "jsonView (JObject kvs) = JObject d \<Longrightarrow> string_prop d k = string_prop kvs k"
  by (cases "get_prop kvs k") (simp_all add: string_prop_def get_prop_view)

text \<open>What \<open>saveConfig\<close> does, by the state of the disk.\<close>

lemma saveConfig_succeeds:
  assumes "fs (dirname (configFile pl p)) = Some Directory"
    and "fs (configFile pl p) \<noteq> Some Directory"
  shows "saveConfig pl fs c p =
           Inr (fs(configFile pl p \<mapsto>
                  File (JSON_stringify pl (JObject (spread [(''version'', JString ''1.0'')] c)) @
                        [CHR 0x0A])),
                configFile pl p)"
  using assms
  by (auto simp: saveConfig_def writeFile_def configFile_def Let_def
        split: option.splits node.splits)

lemma saveConfig_fails:
  assumes "fs (dirname (configFile pl p)) \<noteq> Some Directory \<or>
           fs (configFile pl p) = Some Directory"
  shows "\<exists>e. saveConfig pl fs c p = Inl e"
  using assms
  by (auto simp: saveConfig_def writeFile_def configFile_def Let_def
        split: option.splits node.splits)

lemma saveConfig_cases:
  "saveConfig pl fs c p = Inr (fs', written) \<longleftrightarrow>
     fs (dirname (configFile pl p)) = Some Directory \<and>
     fs (configFile pl p) \<noteq> Some Directory \<and>
     written = configFile pl p \<and>
     fs' = fs(configFile pl p \<mapsto>
              File (JSON_stringify pl (JObject (spread [(''version'', JString ''1.0'')] c)) @
                    [CHR 0x0A]))"
proof (cases "fs (dirname (configFile pl p)) = Some Directory \<and>
              fs (configFile pl p) \<noteq> Some Directory")
  case True
  then have "saveConfig pl fs c p =
           Inr (fs(configFile pl p \<mapsto>
                  File (JSON_stringify pl (JObject (spread [(''version'', JString ''1.0'')] c)) @
                        [CHR 0x0A])),
                configFile pl p)"
    by (intro saveConfig_succeeds) simp_all
  with True show ?thesis by auto
next
  case False
  then obtain e where "saveConfig pl fs c p = Inl e"
    using saveConfig_fails [of fs pl p c] by blast
  with False show ?thesis by auto
qed

lemma loadConfig_reads:
  assumes "fs (configFile pl p) = Some (File content)"
    and "JSON_parse pl content = Inr v"
  shows "loadConfig pl fs p = Inr v"
  using assms by (simp add: loadConfig_def pathExists_def readFile_def configFile_def Let_def)

lemma load_after_save:
  assumes law: "json_round_trip pl (JObject (spread [(''version'', JString ''1.0'')] c))"
  shows "loadConfig pl
           (fs(configFile pl p \<mapsto>
               File (JSON_stringify pl (JObject (spread [(''version'', JString ''1.0'')] c)) @
                     [CHR 0x0A]))) p =
         Inr (jsonView (JObject (spread [(''version'', JString ''1.0'')] c)))"
  using law by (intro loadConfig_reads) (auto simp: json_round_trip_def)

lemma spread_version_props:
  fixes c :: jsobject
  defines "cwv \<equiv> spread [(''version'', JString ''1.0'')] c"
  shows "(''version'' \<notin> fst ` set c \<longrightarrow> string_prop cwv ''version'' = Some ''1.0'') \<and>
         (\<forall>v. string_prop c ''version'' = Some v \<longrightarrow> string_prop cwv ''version'' = Some v) \<and>
         string_prop cwv ''projectName'' = string_prop c ''projectName'' \<and>
         string_prop cwv ''domain'' = string_prop c ''domain''"
proof -
  have other: "get_prop cwv k = get_prop c k" if "k \<noteq> ''version''" for k
    using that unfolding cwv_def get_prop_spread by (simp add: get_prop_def split: option.splits)
  have v1: "string_prop cwv ''version'' = Some ''1.0''" if "''version'' \<notin> fst ` set c"
  proof -
    from that have "map_of c ''version'' = None"
      by (simp add: map_of_eq_None_iff)
    then show ?thesis
      unfolding cwv_def string_prop_def get_prop_spread by (simp add: get_prop_def)
  qed
  have v2: "string_prop cwv ''version'' = Some v" if "string_prop c ''version'' = Some v" for v
  proof -
    from that have "map_of c ''version'' = Some (JString v)"
      by (auto simp: string_prop_def get_prop_def split: option.splits jsvalue.splits)
    then show ?thesis
      by (simp add: cwv_def string_prop_def get_prop_spread)
  qed
  have p: "string_prop cwv ''projectName'' = string_prop c ''projectName''"
    by (simp add: string_prop_def other)
  have q: "string_prop cwv ''domain'' = string_prop c ''domain''"
    by (simp add: string_prop_def other)
  from v1 v2 p q show ?thesis by blast
qed

text \<open>
  C5. \<open>saveConfig\<close> of the configuration \<open>c\<close> to the path \<open>p\<close> succeeds exactly when the
  parent of the resolved path is a directory and the path itself is not one. When it
  succeeds it returns the resolved path and has written there the JSON text of \<open>c\<close> over
  the default \<open>version\<close>, followed by a newline, and nothing else. When the platform's JSON
  functions round-trip that document, \<open>loadConfig\<close> of \<open>p\<close> then returns a document whose
  \<open>version\<close> is \<open>1.0\<close> when \<open>c\<close> has no \<open>version\<close> property and is the version of \<open>c\<close> when the
  caller supplied one, and whose \<open>projectName\<close> and \<open>domain\<close> are those of \<open>c\<close>.
\<close>

theorem save_load_round_trip:
  assumes law: "json_round_trip pl (JObject (spread [(''version'', JString ''1.0'')] c))"
  shows "((\<exists>fs' written. saveConfig pl fs c p = Inr (fs', written)) \<longleftrightarrow>
            fs (dirname (configFile pl p)) = Some Directory \<and>
            fs (configFile pl p) \<noteq> Some Directory) \<and>
         (\<forall>fs' written. saveConfig pl fs c p = Inr (fs', written) \<longrightarrow>
            written = configFile pl p \<and>
            fs' = fs(configFile pl p \<mapsto>
                     File (JSON_stringify pl (JObject (spread [(''version'', JString ''1.0'')] c)) @
                           [CHR 0x0A])) \<and>
            (\<exists>d. loadConfig pl fs' p = Inr (JObject d) \<and>
                 (''version'' \<notin> fst ` set c \<longrightarrow> string_prop d ''version'' = Some ''1.0'') \<and>
                 (\<forall>v. string_prop c ''version'' = Some v \<longrightarrow> string_prop d ''version'' = Some v) \<and>
                 string_prop d ''projectName'' = string_prop c ''projectName'' \<and>
                 string_prop d ''domain'' = string_prop c ''domain''))"
proof -
  let ?cwv = "spread [(''version'', JString ''1.0'')] c"
  let ?fs = "fs(configFile pl p \<mapsto> File (JSON_stringify pl (JObject ?cwv) @ [CHR 0x0A]))"
  have a: "(\<exists>fs' written. saveConfig pl fs c p = Inr (fs', written)) \<longleftrightarrow>
             fs (dirname (configFile pl p)) = Some Directory \<and>
             fs (configFile pl p) \<noteq> Some Directory"
    by (simp add: saveConfig_cases)
  obtain d where d: "jsonView (JObject ?cwv) = JObject d"
    by simp
  have load: "loadConfig pl ?fs p = Inr (JObject d)"
    using load_after_save [OF law, of fs p] d by simp
  have view: "string_prop d k = string_prop ?cwv k" for k
    using d by (rule string_prop_view)
  have b: "\<exists>d. loadConfig pl ?fs p = Inr (JObject d) \<and>
            (''version'' \<notin> fst ` set c \<longrightarrow> string_prop d ''version'' = Some ''1.0'') \<and>
            (\<forall>v. string_prop c ''version'' = Some v \<longrightarrow> string_prop d ''version'' = Some v) \<and>
            string_prop d ''projectName'' = string_prop c ''projectName'' \<and>
            string_prop d ''domain'' = string_prop c ''domain''"
    using load spread_version_props [of c] by (intro exI [of _ d]) (simp add: view)
  show ?thesis
    using a b by (simp add: saveConfig_cases)
qed

text \<open>A version property that is present but holds undefined is dropped by the serialisation.\<close>

lemma save_load_undefined_version:
  assumes saved: "saveConfig pl fs c p = Inr (fs', written)"
    and law: "json_round_trip pl (JObject (spread [(''version'', JString ''1.0'')] c))"
    and undef: "map_of c ''version'' = Some JUndefined"
  shows "\<exists>d. loadConfig pl fs' p = Inr (JObject d) \<and> get_prop d ''version'' = JUndefined"
proof -
  let ?cwv = "spread [(''version'', JString ''1.0'')] c"
  obtain d where d: "jsonView (JObject ?cwv) = JObject d"
    by simp
  from saved
  have "fs' = fs(configFile pl p \<mapsto> File (JSON_stringify pl (JObject ?cwv) @ [CHR 0x0A]))"
    by (simp add: saveConfig_cases)
  then have "loadConfig pl fs' p = Inr (jsonView (JObject ?cwv))"
    using load_after_save [OF law, of fs p] by simp
  moreover have "get_prop d ''version'' = JUndefined"
    using undef by (simp add: get_prop_view [OF d] get_prop_spread)
  ultimately show ?thesis using d by simp
qed

lemma spread_testDocument: "spread [(''version'', JString ''1.0'')] testDocument = versioned ''1.0''"
  by code_simp

lemma spread_versioned: "spread [(''version'', JString ''1.0'')] (versioned ''2.0'') = versioned ''2.0''"
  by code_simp

lemma jsonView_versioned_1: "jsonView (JObject (versioned ''1.0'')) = JObject (versioned ''1.0'')"
  by code_simp

lemma jsonView_versioned_2: "jsonView (JObject (versioned ''2.0'')) = JObject (versioned ''2.0'')"
  by code_simp

lemma stub_round_trip:
  "jsonView document = document \<Longrightarrow> json_round_trip (stubPlatform document text) document"
  by (simp add: json_round_trip_def stubPlatform_def)

lemma stub_configFile: "configFile (stubPlatform document text) (Some testPath) = testPath"
  by (simp add: configFile_def stubPlatform_def js_or_def truthy_def testPath_def)

lemma dirname_testPath: "dirname testPath = ''/tmp/grablin-test''"
  by code_simp

lemma testDisk_ready:
  "testDisk ''/tmp/grablin-test'' = Some Directory \<and> testDisk testPath \<noteq> Some Directory"
  by (simp add: testDisk_def testPath_def)

lemma rootDisk_bare: "rootDisk ''/tmp/grablin-test'' \<noteq> Some Directory"
  by (simp add: rootDisk_def)

theorem save_load_round_trip_witness:
  "(\<exists>fs' d. saveConfig (stubPlatform (JObject (versioned ''1.0'')) (documentText ''1.0''))
                testDisk testDocument (Some testPath) = Inr (fs', testPath) \<and>
            loadConfig (stubPlatform (JObject (versioned ''1.0'')) (documentText ''1.0''))
                fs' (Some testPath) = Inr (JObject d) \<and>
            string_prop d ''version'' = Some ''1.0'' \<and>
            string_prop d ''projectName'' = Some ''TestApp'' \<and>
            string_prop d ''domain'' = Some ''test.com'') \<and>
   (\<exists>fs' d. saveConfig (stubPlatform (JObject (versioned ''2.0'')) (documentText ''2.0''))
                testDisk (versioned ''2.0'') (Some testPath) = Inr (fs', testPath) \<and>
            loadConfig (stubPlatform (JObject (versioned ''2.0'')) (documentText ''2.0''))
                fs' (Some testPath) = Inr (JObject d) \<and>
            string_prop d ''version'' = Some ''2.0'') \<and>
   \<not> (\<exists>fs' written. saveConfig (stubPlatform (JObject (versioned ''1.0'')) (documentText ''1.0''))
                        rootDisk testDocument (Some testPath) = Inr (fs', written))"
proof -
  let ?P1 = "stubPlatform (JObject (versioned ''1.0'')) (documentText ''1.0'')"
  let ?P2 = "stubPlatform (JObject (versioned ''2.0'')) (documentText ''2.0'')"
  have law1: "json_round_trip ?P1 (JObject (spread [(''version'', JString ''1.0'')] testDocument))"
    unfolding spread_testDocument by (rule stub_round_trip [OF jsonView_versioned_1])
  have law2: "json_round_trip ?P2 (JObject (spread [(''version'', JString ''1.0'')] (versioned ''2.0'')))"
    unfolding spread_versioned by (rule stub_round_trip [OF jsonView_versioned_2])
  have c1: "''version'' \<notin> fst ` set testDocument"
    by (simp add: testDocument_def)
  have c2: "string_prop testDocument ''projectName'' = Some ''TestApp''"
    by (simp add: string_prop_def get_prop_def testDocument_def)
  have c3: "string_prop testDocument ''domain'' = Some ''test.com''"
    by (simp add: string_prop_def get_prop_def testDocument_def)
  have c4: "string_prop (versioned ''2.0'') ''version'' = Some ''2.0''"
    by (simp add: string_prop_def get_prop_def versioned_def)
  note r1 = save_load_round_trip [OF law1, of testDisk "Some testPath"]
  note r2 = save_load_round_trip [OF law2, of testDisk "Some testPath"]
  note r3 = save_load_round_trip [OF law1, of rootDisk "Some testPath"]
  from r1 testDisk_ready
  obtain fs1 w1 where s1: "saveConfig ?P1 testDisk testDocument (Some testPath) = Inr (fs1, w1)"
    unfolding stub_configFile dirname_testPath by blast
  from r1 s1 c1 c2 c3
  have 1: "\<exists>fs' d. saveConfig ?P1 testDisk testDocument (Some testPath) = Inr (fs', testPath) \<and>
             loadConfig ?P1 fs' (Some testPath) = Inr (JObject d) \<and>
             string_prop d ''version'' = Some ''1.0'' \<and>
             string_prop d ''projectName'' = Some ''TestApp'' \<and>
             string_prop d ''domain'' = Some ''test.com''"
    unfolding stub_configFile by (intro exI [of _ fs1]) auto
  from r2 testDisk_ready
  obtain fs2 w2 where s2: "saveConfig ?P2 testDisk (versioned ''2.0'') (Some testPath) = Inr (fs2, w2)"
    unfolding stub_configFile dirname_testPath by blast
  from r2 s2 c4
  have 2: "\<exists>fs' d. saveConfig ?P2 testDisk (versioned ''2.0'') (Some testPath) = Inr (fs', testPath) \<and>
             loadConfig ?P2 fs' (Some testPath) = Inr (JObject d) \<and>
             string_prop d ''version'' = Some ''2.0''"
    unfolding stub_configFile by (intro exI [of _ fs2]) auto
  from r3 rootDisk_bare
  have 3: "\<not> (\<exists>fs' written. saveConfig ?P1 rootDisk testDocument (Some testPath) = Inr (fs', written))"
    unfolding stub_configFile dirname_testPath by blast
  from 1 2 3 show ?thesis by blast
qed

section \<open>The matcher decides the language of the expression\<close>

lemma conc_empty [simp]: "conc {} B = {}" "conc A {} = {}"
  by (auto simp: conc_def)

lemma conc_eps [simp]: "conc {[]} B = B" "conc A {[]} = A"
  by (auto simp: conc_def)

lemma conc_mono: "A \<subseteq> A' \<Longrightarrow> B \<subseteq> B' \<Longrightarrow> conc A B \<subseteq> conc A' B'"
  by (auto simp: conc_def)

lemma conc_Union_right: "conc A (\<Union>k\<in>I. F k) = (\<Union>k\<in>I. conc A (F k))"
  by (auto simp: conc_def)

lemma Nil_in_conc [simp]: "[] \<in> conc A B \<longleftrightarrow> [] \<in> A \<and> [] \<in> B"
  by (auto simp: conc_def)

lemma Nil_in_pow: "[] \<in> pow A k \<longleftrightarrow> k = 0 \<or> [] \<in> A"
  by (induction k) auto

lemma Deriv_empty [simp]: "Deriv c {} = {}"
  by (simp add: Deriv_def)

lemma Deriv_eps [simp]: "Deriv c {[]} = {}"
  by (simp add: Deriv_def)

lemma Deriv_union [simp]: "Deriv c (A \<union> B) = Deriv c A \<union> Deriv c B"
  by (auto simp: Deriv_def)

lemma Deriv_UN: "Deriv c (\<Union>k\<in>I. F k) = (\<Union>k\<in>I. Deriv c (F k))"
  by (auto simp: Deriv_def)

lemma Deriv_conc:
  "Deriv c (conc A B) = conc (Deriv c A) B \<union> (if [] \<in> A then Deriv c B else {})"
proof -
  have "c # w \<in> conc A B \<longleftrightarrow>
          (\<exists>xs ys. w = xs @ ys \<and> c # xs \<in> A \<and> ys \<in> B) \<or> ([] \<in> A \<and> c # w \<in> B)" for w
    unfolding conc_def
    by (auto simp: append_eq_Cons_conv Cons_eq_append_conv)
  then show ?thesis
    by (auto simp: Deriv_def conc_def)
qed

lemma pow_mono_Suc: "[] \<in> A \<Longrightarrow> pow A k \<subseteq> pow A (Suc k)"
proof (induction k)
  case 0
  then show ?case by simp
next
  case (Suc k)
  then show ?case by (simp add: conc_mono)
qed

lemma Deriv_pow: "Deriv c (pow A (Suc k)) = conc (Deriv c A) (pow A k)"
proof (induction k)
  case 0
  then show ?case by (simp add: Deriv_conc)
next
  case (Suc k)
  have "Deriv c (pow A (Suc (Suc k))) = Deriv c (conc A (pow A (Suc k)))"
    by (simp only: pow.simps)
  also have "\<dots> = conc (Deriv c A) (pow A (Suc k)) \<union>
                   (if [] \<in> A then Deriv c (pow A (Suc k)) else {})"
    by (rule Deriv_conc)
  also have "\<dots> = conc (Deriv c A) (pow A (Suc k)) \<union>
                   (if [] \<in> A then conc (Deriv c A) (pow A k) else {})"
    by (simp only: Suc.IH)
  also have "\<dots> = conc (Deriv c A) (pow A (Suc k))"
  proof (cases "[] \<in> A")
    case True
    have "conc (Deriv c A) (pow A k) \<subseteq> conc (Deriv c A) (pow A (Suc k))"
      using pow_mono_Suc [OF True] by (intro conc_mono) auto
    with True show ?thesis by (simp only: if_True) blast
  next
    case False
    then show ?thesis by (simp only: if_False Un_empty_right)
  qed
  finally show ?case .
qed

lemma Deriv_pow_0 [simp]: "Deriv c (pow A 0) = {}"
  by simp

lemma nullable_lang: "nullable r \<longleftrightarrow> [] \<in> lang r"
proof (induction r)
  case (Star r)
  have "[] \<in> pow (lang r) 0" by simp
  then have "[] \<in> (\<Union>k. pow (lang r) k)" by blast
  then show ?case by simp
next
  case (Rep m n r)
  have "[] \<in> (\<Union>k\<in>{m..n}. pow (lang r) k) \<longleftrightarrow> m \<le> n \<and> (m = 0 \<or> [] \<in> lang r)"
    by (auto simp: Nil_in_pow)
  with Rep show ?case by simp
qed simp_all

lemma lang_seq [simp]: "lang (seq r s) = conc (lang r) (lang s)"
  by (cases r) simp_all

lemma lang_alt [simp]: "lang (alt r s) = lang r \<union> lang s"
  by (cases r; cases s) simp_all

lemma Deriv_star: "Deriv c (\<Union>k. pow A k) = conc (Deriv c A) (\<Union>k. pow A k)"
proof -
  have "Deriv c (\<Union>k. pow A k) = (\<Union>k. Deriv c (pow A k))"
    by (auto simp: Deriv_def)
  also have "\<dots> = (\<Union>k. Deriv c (pow A (Suc k)))"
  proof
    show "(\<Union>k. Deriv c (pow A k)) \<subseteq> (\<Union>k. Deriv c (pow A (Suc k)))"
    proof
      fix w assume "w \<in> (\<Union>k. Deriv c (pow A k))"
      then obtain k where k: "w \<in> Deriv c (pow A k)" by blast
      then obtain j where "k = Suc j" by (cases k) auto
      with k show "w \<in> (\<Union>k. Deriv c (pow A (Suc k)))" by blast
    qed
  qed blast
  also have "\<dots> = (\<Union>k. conc (Deriv c A) (pow A k))"
    by (simp only: Deriv_pow)
  also have "\<dots> = conc (Deriv c A) (\<Union>k. pow A k)"
    by (simp only: conc_Union_right)
  finally show ?thesis .
qed

lemma Deriv_rep:
  assumes "n \<noteq> 0" and "m \<le> n"
  shows "Deriv c (\<Union>k\<in>{m..n}. pow A k) = conc (Deriv c A) (\<Union>k\<in>{m - 1..n - 1}. pow A k)"
proof (intro set_eqI iffI)
  fix w assume "w \<in> Deriv c (\<Union>k\<in>{m..n}. pow A k)"
  then obtain k where k: "m \<le> k" "k \<le> n" "w \<in> Deriv c (pow A k)"
    unfolding Deriv_UN by auto
  from k(3) have "k \<noteq> 0" by (cases k) (simp_all add: Deriv_def)
  then obtain j where j: "k = Suc j" by (cases k) simp_all
  from k(3) have "w \<in> conc (Deriv c A) (pow A j)"
    unfolding j Deriv_pow .
  moreover from k(1,2) have "j \<in> {m - 1..n - 1}"
    unfolding j by auto
  ultimately have "w \<in> (\<Union>k\<in>{m - 1..n - 1}. conc (Deriv c A) (pow A k))"
    by blast
  then show "w \<in> conc (Deriv c A) (\<Union>k\<in>{m - 1..n - 1}. pow A k)"
    unfolding conc_Union_right .
next
  fix w assume "w \<in> conc (Deriv c A) (\<Union>k\<in>{m - 1..n - 1}. pow A k)"
  then obtain j where j: "m - 1 \<le> j" "j \<le> n - 1" "w \<in> conc (Deriv c A) (pow A j)"
    unfolding conc_Union_right by auto
  from j(3) have "w \<in> Deriv c (pow A (Suc j))"
    unfolding Deriv_pow .
  moreover from j(1,2) assms have "Suc j \<in> {m..n}"
    by auto
  ultimately have "w \<in> (\<Union>k\<in>{m..n}. Deriv c (pow A k))"
    by blast
  then show "w \<in> Deriv c (\<Union>k\<in>{m..n}. pow A k)"
    unfolding Deriv_UN .
qed

lemma lang_deriv: "lang (deriv c r) = Deriv c (lang r)"
proof (induction r)
  case (Class cls)
  then show ?case by (auto simp: Deriv_def)
next
  case (Seq r s)
  then show ?case by (simp add: Deriv_conc nullable_lang)
next
  case (Star r)
  then show ?case by (simp add: Deriv_star)
next
  case (Rep m n r)
  show ?case
  proof (cases "n = 0 \<or> n < m")
    case True
    then show ?thesis by (auto simp: Deriv_def)
  next
    case False
    then show ?thesis using Rep by (simp add: Deriv_rep)
  qed
qed simp_all

lemma fold_deriv: "[] \<in> lang (fold deriv s r) \<longleftrightarrow> s \<in> lang r"
  by (induction s arbitrary: r) (simp_all add: lang_deriv Deriv_def)

text \<open>The matcher accepts a string exactly when the string is in the language of the expression.\<close>

theorem test_lang: "test r s \<longleftrightarrow> s \<in> lang r"
  by (simp add: test_def nullable_lang fold_deriv)

section \<open>The labels of a domain that matches the pattern\<close>

lemma conc_assoc: "conc (conc A B) C = conc A (conc B C)"
  unfolding conc_def by (auto, metis append.assoc, metis append.assoc)

lemma pow_class:
  "w \<in> pow (lang (Class cls)) k \<Longrightarrow> length w = k \<and> (\<forall>c\<in>set w. in_class cls c)"
proof (induction k arbitrary: w)
  case 0
  then show ?case by simp
next
  case (Suc k)
  then obtain c v where "w = c # v" "in_class cls c" "v \<in> pow (lang (Class cls)) k"
    by (auto simp: conc_def)
  with Suc.IH [of v] show ?case by simp
qed

lemma rep_class:
  assumes "w \<in> lang (Rep m n (Class cls))"
  shows "length w \<le> n \<and> (\<forall>c\<in>set w. in_class cls c)"
proof -
  from assms obtain k where "k \<le> n" "w \<in> pow (lang (Class cls)) k" by auto
  with pow_class [of w cls k] show ?thesis by simp
qed

lemma dot_not_in_label_classes:
  "\<not> in_class (lower @ upper @ digit) CHR ''.''"
  "\<not> in_class (lower @ upper @ digit @ chars ''-'') CHR ''.''"
  "\<not> in_class (lower @ upper) CHR ''.''"
  by (simp_all add: in_class_def lower_def upper_def digit_def chars_def)

lemma in_class_single: "in_class [(a, a)] c \<longleftrightarrow> c = a"
  by (auto simp: in_class_def)

lemma class_lang: "x \<in> lang (Class cls) \<Longrightarrow> \<exists>c. x = [c] \<and> in_class cls c"
  by auto

lemma concE:
  assumes "w \<in> conc A B"
  obtains x y where "w = x @ y" and "x \<in> A" and "y \<in> B"
  using assms unfolding conc_def by blast

lemma domainLabel_lang:
  assumes "w \<in> lang domainLabel"
  shows "length w \<le> 63 \<and> CHR ''.'' \<notin> set w"
proof -
  let ?A = "lower @ upper @ digit"
  let ?B = "lower @ upper @ digit @ chars ''-''"
  from assms have "w \<in> conc (lang (Class ?A)) (lang (Seq (Rep 0 61 (Class ?B)) (Class ?A)) \<union> {[]})"
    by (simp only: domainLabel_def Opt_def lang.simps)
  then obtain x y where w: "w = x @ y" and x: "x \<in> lang (Class ?A)"
    and y: "y \<in> lang (Seq (Rep 0 61 (Class ?B)) (Class ?A)) \<union> {[]}"
    by (rule concE)
  from class_lang [OF x] obtain c where c: "x = [c]" "in_class ?A c" by blast
  from c(2) have c': "c \<noteq> CHR ''.''"
    using dot_not_in_label_classes(1) by auto
  from y consider "y = []" | "y \<in> conc (lang (Rep 0 61 (Class ?B))) (lang (Class ?A))"
    by (auto simp only: lang.simps Un_iff singleton_iff)
  then show ?thesis
  proof cases
    case 1
    with w c c' show ?thesis by simp
  next
    case 2
    then obtain mid z where r: "y = mid @ z" and mid: "mid \<in> lang (Rep 0 61 (Class ?B))"
      and z: "z \<in> lang (Class ?A)"
      by (rule concE)
    from class_lang [OF z] obtain e where e: "z = [e]" "in_class ?A e" by blast
    from rep_class [OF mid] have "length mid \<le> 61" "CHR ''.'' \<notin> set mid"
      using dot_not_in_label_classes(2) by auto
    moreover from e(2) have "e \<noteq> CHR ''.''"
      using dot_not_in_label_classes(1) by auto
    ultimately show ?thesis using w r c c' e by simp
  qed
qed

lemma tld_lang:
  assumes "w \<in> lang (Rep 2 24 (Class (lower @ upper)))"
  shows "length w \<le> 63 \<and> CHR ''.'' \<notin> set w"
  using rep_class [OF assms] dot_not_in_label_classes(3) by auto

lemma split_dot_nonempty: "split_dot w \<noteq> []"
  by (induction w) (auto split: list.splits)

lemma split_dot_no_dot: "CHR ''.'' \<notin> set w \<Longrightarrow> split_dot w = [w]"
  by (induction w) auto

lemma split_dot_label: "CHR ''.'' \<notin> set l \<Longrightarrow> split_dot (l @ CHR ''.'' # rest) = l # split_dot rest"
  by (induction l) auto

lemma labels_short:
  "w \<in> conc (pow (lang (Seq domainLabel (Lit CHR ''.''))) k) (lang (Rep 2 24 (Class (lower @ upper)))) \<Longrightarrow>
   \<forall>l\<in>set (split_dot w). length l \<le> 63"
proof (induction k arbitrary: w)
  case 0
  then have "w \<in> lang (Rep 2 24 (Class (lower @ upper)))"
    by (simp only: pow.simps conc_eps)
  from tld_lang [OF this] show ?case by (simp add: split_dot_no_dot)
next
  case (Suc k)
  let ?L = "lang (Seq domainLabel (Lit CHR ''.''))"
  let ?T = "lang (Rep 2 24 (Class (lower @ upper)))"
  from Suc.prems have "w \<in> conc ?L (conc (pow ?L k) ?T)"
    by (simp only: pow.simps conc_assoc)
  then obtain x v where w: "w = x @ v" and x: "x \<in> ?L" and v: "v \<in> conc (pow ?L k) ?T"
    by (rule concE)
  from x have "x \<in> conc (lang domainLabel) (lang (Class [(CHR ''.'', CHR ''.'')]))"
    by (simp only: lang.simps Lit_def)
  then obtain l z where xl: "x = l @ z" and l: "l \<in> lang domainLabel"
    and z: "z \<in> lang (Class [(CHR ''.'', CHR ''.'')])"
    by (rule concE)
  from class_lang [OF z] have z': "z = ''.''"
    by (auto simp: in_class_single)
  from domainLabel_lang [OF l] have "length l \<le> 63" "CHR ''.'' \<notin> set l" by simp_all
  with Suc.IH [OF v] w xl z' show ?case
    by (simp add: split_dot_label)
qed

lemma plus_pow: "conc A (\<Union>k. pow A k) = (\<Union>k. pow A (Suc k))"
  by (simp only: conc_Union_right pow.simps)

lemma conc_Union_left: "conc (\<Union>k. F k) B = (\<Union>k. conc (F k) B)"
  by (auto simp: conc_def)

text \<open>
  A domain that matches the pattern has no label of more than 63 characters: the last
  branch of the \<open>domain\<close> statement of \<open>validateConfig\<close> is never taken.
\<close>

lemma label_check_unreachable:
  assumes "test domainPattern d"
  shows "\<not> list_ex longLabel (split_dot d)"
proof -
  let ?L = "lang (Seq domainLabel (Lit CHR ''.''))"
  let ?T = "lang (Rep 2 24 (Class (lower @ upper)))"
  from assms have "d \<in> lang domainPattern"
    by (simp only: test_lang)
  then have "d \<in> conc (conc ?L (\<Union>k. pow ?L k)) ?T"
    by (simp only: domainPattern_def Plus_def lang.simps)
  then have "d \<in> (\<Union>k. conc (pow ?L (Suc k)) ?T)"
    by (simp only: plus_pow conc_Union_left)
  then obtain k where "d \<in> conc (pow ?L (Suc k)) ?T"
    by blast
  from labels_short [OF this] show ?thesis
    by (auto simp: list_ex_iff longLabel_def)
qed

end
